theory Spec2Isabelle
  imports Main "HOL-Library.AList"
begin

section \<open>Data model\<close>

text \<open>
  The embedding follows \<^verbatim>\<open>documentRegistry.ts\<close> and \<^verbatim>\<open>languageContext.ts\<close> of
  the language core. Strings are \<open>string\<close>; JavaScript objects that are compared or
  used as keys by identity (source files, mapping tables, translators) carry a
  reference number; a \<^verbatim>\<open>Map\<close> or \<^verbatim>\<open>Record\<close> that the code iterates is an
  association list in insertion order (\<open>AList.update\<close> keeps the position of an
  existing key and appends a new one, as \<^verbatim>\<open>Map.set\<close> does), one that is only looked
  up is a map \<open>'k \<rightharpoonup> 'v\<close>; a \<^verbatim>\<open>Set\<close> is a duplicate-free list in insertion order.
\<close>

text \<open>
  Modelled from the spec: the enum \<^verbatim>\<open>EmbeddedFileKind\<close> is declared in
  \<^verbatim>\<open>types.ts\<close>, which is not among the sources. The spec describes a kind tag that
  tells host-visible files from internal ones; the internal kind is the enum's value
  \<open>0\<close>, so that the truthiness test \<^verbatim>\<open>if (embedded.kind)\<close> selects the other one.
\<close>

datatype EmbeddedFileKind = TextFile | TypeScriptHostFile

definition truthy :: "EmbeddedFileKind \<Rightarrow> bool" where
  "truthy k = (k \<noteq> TextFile)"

text \<open>
  Modelled from the spec: a mapping table is an array of (source range, generated
  range) entries (package \<^verbatim>\<open>@volar/source-map\<close>, not among the sources). The array
  is an object: \<open>tableRef\<close> is its identity, \<open>entries\<close> its contents.
\<close>

type_synonym Mapping = "(nat \<times> nat) \<times> (nat \<times> nat)"

datatype Mappings = Mappings (tableRef: nat) (entries: "Mapping list")

datatype EmbeddedFile = EmbeddedFile
  (fileName: string)
  (text_of: string)
  (kind: EmbeddedFileKind)
  (mappings: Mappings)
  (teleportMappings: "Mappings option")
  (embeddeds: "EmbeddedFile list")

text \<open>A source file is the root node of its own tree of embedded files.\<close>

type_synonym SourceFile = EmbeddedFile

text \<open>
  \<^verbatim>\<open>forEachEmbeddeds(file, cb)\<close> calls \<open>cb\<close> on the node, then on every child's
  subtree in order. The model returns the nodes in the order of the calls; a callback
  is then a \<open>fold\<close> over this list.
\<close>

fun forEachEmbeddeds :: "EmbeddedFile \<Rightarrow> EmbeddedFile list" where
  "forEachEmbeddeds (EmbeddedFile n t k m tm es) =
     EmbeddedFile n t k m tm es # concat (map forEachEmbeddeds es)"

text \<open>
  What the external host answers at the time of a call. \<open>host_getProjectVersion\<close> is
  \<open>None\<close> when the host has no such method or the method returns \<^verbatim>\<open>undefined\<close>; a
  snapshot is the text it holds; \<open>createHash\<close> is \<^verbatim>\<open>ts.sys?.createHash\<close> of the
  module returned by \<^verbatim>\<open>host.getTypeScriptModule()\<close>.
\<close>

record Host =
  host_getProjectVersion :: "string option"
  host_getScriptFileNames :: "string list"
  host_getScriptVersion :: "string \<Rightarrow> string"
  host_getScriptSnapshot :: "string \<Rightarrow> string option"
  host_fileExists :: "(string \<Rightarrow> bool) option"
  isTsc :: bool
  createHash :: "(string \<Rightarrow> string) option"

text \<open>The partial host a language module may return to override methods of the host.\<close>

record HostOverrides =
  over_getProjectVersion :: "string option option"
  over_getScriptFileNames :: "string list option"
  over_getScriptVersion :: "(string \<Rightarrow> string) option"
  over_getScriptSnapshot :: "(string \<Rightarrow> string option) option"
  over_fileExists :: "(string \<Rightarrow> bool) option"

text \<open>
  The result of \<^verbatim>\<open>createSourceFile\<close>: a document, \<^verbatim>\<open>undefined\<close>, or an exception
  thrown by the language module.
\<close>

datatype CreateResult = Created SourceFile | Declined | Thrown

record LanguageModule =
  proxyLanguageServiceHost :: "(Host \<Rightarrow> HostOverrides) option"
  createSourceFile :: "string \<Rightarrow> string \<Rightarrow> CreateResult"
  updateSourceFile :: "SourceFile \<Rightarrow> string \<Rightarrow> SourceFile"

text \<open>A translator built by \<^verbatim>\<open>new SourceMapBase(mappings)\<close> or \<^verbatim>\<open>new Teleport(mappings)\<close>.\<close>

datatype Translator = Translator (instanceRef: nat) (table: Mappings)

section \<open>The document registry\<close>

definition lowerChars :: "(char \<times> char) list" where
  "lowerChars = zip ''ABCDEFGHIJKLMNOPQRSTUVWXYZ'' ''abcdefghijklmnopqrstuvwxyz''"

definition toLowerCase :: "string \<Rightarrow> string" where
  "toLowerCase s = map (\<lambda>c. case map_of lowerChars c of Some l \<Rightarrow> l | None \<Rightarrow> c) s"

definition normalizePath :: "string \<Rightarrow> string" where
  "normalizePath fileName' =
     toLowerCase (map (\<lambda>c. if c = CHR 0x5C then CHR ''/'' else c) fileName')"

text \<open>
  \<open>files\<close> is the record keyed by normalized file name; an entry holds the reference
  of the (reactive) source file object and its language module. \<open>priv_sourceMaps\<close> and
  \<open>priv_teleports\<close> are the two nested weak maps, keyed by the source file's and by the
  table's identity; \<open>nextInstance\<close> numbers the translators constructed so far.
\<close>

record DocumentRegistry =
  files :: "(string \<times> (nat \<times> LanguageModule)) list"
  priv_sourceMaps :: "nat \<rightharpoonup> (nat \<rightharpoonup> Translator)"
  priv_teleports :: "nat \<rightharpoonup> (nat \<rightharpoonup> Translator)"
  nextInstance :: nat

definition createDocumentRegistry :: DocumentRegistry where
  "createDocumentRegistry =
     \<lparr>files = [], priv_sourceMaps = Map.empty, priv_teleports = Map.empty, nextInstance = 0\<rparr>"

definition reg_get :: "DocumentRegistry \<Rightarrow> string \<Rightarrow> (nat \<times> LanguageModule) option" where
  "reg_get reg fileName' = map_of (files reg) (normalizePath fileName')"

definition reg_delete :: "string \<Rightarrow> DocumentRegistry \<Rightarrow> DocumentRegistry" where
  "reg_delete fileName' reg = reg\<lparr>files := AList.delete (normalizePath fileName') (files reg)\<rparr>"

definition reg_has :: "DocumentRegistry \<Rightarrow> string \<Rightarrow> bool" where
  "reg_has reg fileName' = (map_of (files reg) (normalizePath fileName') \<noteq> None)"

definition reg_set :: "string \<Rightarrow> nat \<Rightarrow> LanguageModule \<Rightarrow> DocumentRegistry \<Rightarrow> DocumentRegistry" where
  "reg_set fileName' vueFile languageModule reg =
     reg\<lparr>files := AList.update (normalizePath fileName') (vueFile, languageModule) (files reg)\<rparr>"

definition reg_all :: "DocumentRegistry \<Rightarrow> (nat \<times> LanguageModule) list" where
  "reg_all reg = map snd (files reg)"

definition onSourceFileUpdated :: "nat \<Rightarrow> DocumentRegistry \<Rightarrow> DocumentRegistry" where
  "onSourceFileUpdated file reg =
     reg\<lparr>priv_sourceMaps := (priv_sourceMaps reg)(file := None),
         priv_teleports := (priv_teleports reg)(file := None)\<rparr>"

definition getSourceMap :: "nat \<Rightarrow> Mappings \<Rightarrow> DocumentRegistry \<Rightarrow> Translator \<times> DocumentRegistry" where
  "getSourceMap file mappings' reg =
     (let reg1 = (case priv_sourceMaps reg file of
                    None \<Rightarrow> reg\<lparr>priv_sourceMaps := (priv_sourceMaps reg)(file \<mapsto> Map.empty)\<rparr>
                  | Some _ \<Rightarrow> reg);
          map1' = (case priv_sourceMaps reg file of None \<Rightarrow> Map.empty | Some m \<Rightarrow> m) in
      case map1' (tableRef mappings') of
        Some map2' \<Rightarrow> (map2', reg1)
      | None \<Rightarrow>
          (let map2' = Translator (nextInstance reg1) mappings' in
           (map2', reg1\<lparr>priv_sourceMaps := (priv_sourceMaps reg1)(file \<mapsto> map1'(tableRef mappings' \<mapsto> map2')),
                       nextInstance := Suc (nextInstance reg1)\<rparr>)))"

definition getTeleport :: "nat \<Rightarrow> Mappings \<Rightarrow> DocumentRegistry \<Rightarrow> Translator \<times> DocumentRegistry" where
  "getTeleport file mappings' reg =
     (let reg1 = (case priv_teleports reg file of
                    None \<Rightarrow> reg\<lparr>priv_teleports := (priv_teleports reg)(file \<mapsto> Map.empty)\<rparr>
                  | Some _ \<Rightarrow> reg);
          map1' = (case priv_teleports reg file of None \<Rightarrow> Map.empty | Some m \<Rightarrow> m) in
      case map1' (tableRef mappings') of
        Some map2' \<Rightarrow> (map2', reg1)
      | None \<Rightarrow>
          (let map2' = Translator (nextInstance reg1) mappings' in
           (map2', reg1\<lparr>priv_teleports := (priv_teleports reg1)(file \<mapsto> map1'(tableRef mappings' \<mapsto> map2')),
                       nextInstance := Suc (nextInstance reg1)\<rparr>)))"

text \<open>
  The calls a client can make on the mapping cache, for stating properties of
  sequences of calls: a request for a translator over a range table or over a teleport
  table, and the invalidation of a document.
\<close>

datatype TableKind = RangeTable | TeleportTable

datatype CacheCall = Request TableKind nat Mappings | Invalidate nat

definition request :: "TableKind \<Rightarrow> nat \<Rightarrow> Mappings \<Rightarrow> DocumentRegistry \<Rightarrow> Translator \<times> DocumentRegistry" where
  "request tk file mappings' reg =
     (case tk of RangeTable \<Rightarrow> getSourceMap file mappings' reg
               | TeleportTable \<Rightarrow> getTeleport file mappings' reg)"

fun cacheCall :: "CacheCall \<Rightarrow> DocumentRegistry \<Rightarrow> DocumentRegistry" where
  "cacheCall (Request tk file mappings') reg = snd (request tk file mappings' reg)"
| "cacheCall (Invalidate file) reg = onSourceFileUpdated file reg"

text \<open>The translator stored for a document and a table identity, if any.\<close>

definition cached :: "TableKind \<Rightarrow> DocumentRegistry \<Rightarrow> nat \<Rightarrow> nat \<Rightarrow> Translator option" where
  "cached tk reg file k =
     (case (case tk of RangeTable \<Rightarrow> priv_sourceMaps reg file
                     | TeleportTable \<Rightarrow> priv_teleports reg file) of
        None \<Rightarrow> None
      | Some map1' \<Rightarrow> map1' k)"

text \<open>Every stored translator was constructed earlier: its number is below the counter.\<close>

definition cache_ok :: "DocumentRegistry \<Rightarrow> bool" where
  "cache_ok reg =
     (\<forall>tk file k t. cached tk reg file k = Some t \<longrightarrow> instanceRef t < nextInstance reg)"

text \<open>
  The two derived views are recomputed at every read; the source memoizes them with
  \<^verbatim>\<open>computed\<close> until the reactive \<open>files\<close> record or a source file changes. Both
  need the source file objects, which live in the heap \<open>h\<close>.
\<close>

definition sourceMapsByFileName ::
  "(nat \<Rightarrow> SourceFile) \<Rightarrow> DocumentRegistry \<Rightarrow> (string \<rightharpoonup> (nat \<times> EmbeddedFile))" where
  "sourceMapsByFileName h reg =
     fold (\<lambda>entry map'.
             fold (\<lambda>embedded map'. map'(normalizePath (fileName embedded) \<mapsto> (fst entry, embedded)))
                  (forEachEmbeddeds (h (fst entry))) map')
          (reg_all reg) Map.empty"

definition fromEmbeddedFileName ::
  "(nat \<Rightarrow> SourceFile) \<Rightarrow> DocumentRegistry \<Rightarrow> string \<Rightarrow> (nat \<times> EmbeddedFile) option" where
  "fromEmbeddedFileName h reg fileName' = sourceMapsByFileName h reg (normalizePath fileName')"

section \<open>The language service host adapter\<close>

text \<open>A JavaScript \<^verbatim>\<open>Set\<close>: insertion order, no duplicates.\<close>

definition Set_add :: "'a \<Rightarrow> 'a list \<Rightarrow> 'a list" where
  "Set_add x s = (if x \<in> set s then s else s @ [x])"

definition new_Set :: "'a list \<Rightarrow> 'a list" where
  "new_Set xs = fold Set_add xs []"

definition Set_delete :: "'a \<Rightarrow> 'a list \<Rightarrow> 'a list" where
  "Set_delete x s = removeAll x s"

text \<open>A call returns a value or is left by an exception.\<close>

datatype 'a Completion = Returns 'a | Throws

text \<open>
  The variables of the closure. \<open>heap\<close> holds the source file objects by reference
  (\<open>updateSourceFile\<close> changes an object in place, and the registry, the update queue
  and the weak maps all refer to it), \<open>nextRef\<close> is the next unused reference.
  The counter \<open>tsProjectVersion\<close> is a natural number.
\<close>

record State =
  lastProjectVersion :: "string option"
  tsProjectVersion :: nat
  documentRegistry :: DocumentRegistry
  heap :: "nat \<Rightarrow> SourceFile"
  nextRef :: nat
  scriptSnapshots :: "string \<rightharpoonup> (string \<times> string)"
  sourceTsFileVersions :: "(string \<times> string) list"
  sourceVueFileVersions :: "string \<rightharpoonup> string"
  virtualFileVersions :: "string \<rightharpoonup> string"

definition initialState :: State where
  "initialState =
     \<lparr>lastProjectVersion = None, tsProjectVersion = 0,
      documentRegistry = createDocumentRegistry,
      heap = (\<lambda>_. EmbeddedFile [] [] TextFile (Mappings 0 []) None []), nextRef = 0,
      scriptSnapshots = Map.empty, sourceTsFileVersions = [],
      sourceVueFileVersions = Map.empty, virtualFileVersions = Map.empty\<rparr>"

text \<open>\<^verbatim>\<open>new Proxy(host, {get ...})\<close>: a key of \<open>proxyApis\<close> wins over the target's.\<close>

definition proxyHost :: "Host \<Rightarrow> HostOverrides \<Rightarrow> Host" where
  "proxyHost target proxyApis =
     target\<lparr>host_getProjectVersion :=
              (case over_getProjectVersion proxyApis of Some v \<Rightarrow> v | None \<Rightarrow> host_getProjectVersion target),
            host_getScriptFileNames :=
              (case over_getScriptFileNames proxyApis of Some v \<Rightarrow> v | None \<Rightarrow> host_getScriptFileNames target),
            host_getScriptVersion :=
              (case over_getScriptVersion proxyApis of Some v \<Rightarrow> v | None \<Rightarrow> host_getScriptVersion target),
            host_getScriptSnapshot :=
              (case over_getScriptSnapshot proxyApis of Some v \<Rightarrow> v | None \<Rightarrow> host_getScriptSnapshot target),
            host_fileExists :=
              (case over_fileExists proxyApis of Some v \<Rightarrow> Some v | None \<Rightarrow> host_fileExists target)\<rparr>"

text \<open>
  The constructor. \<^verbatim>\<open>languageModules.reverse()\<close> reverses the caller's array in
  place and returns it, so the closure's \<open>languageModules\<close> and the caller's array are
  the reversed list from then on. The result is the context (its host, its modules,
  its state) and the caller's array after the call.
\<close>

record EmbeddedLanguageContext =
  ctx_host :: Host
  ctx_languageModules :: "LanguageModule list"
  ctx_state :: State

definition createEmbeddedLanguageServiceHost ::
  "Host \<Rightarrow> LanguageModule list \<Rightarrow> EmbeddedLanguageContext \<times> LanguageModule list" where
  "createEmbeddedLanguageServiceHost host languageModules =
     (let reversed = rev languageModules;
          host' = fold (\<lambda>languageModule host.
                          case proxyLanguageServiceHost languageModule of
                            Some f \<Rightarrow> proxyHost host (f host)
                          | None \<Rightarrow> host)
                       reversed host in
      (\<lparr>ctx_host = host', ctx_languageModules = reversed, ctx_state = initialState\<rparr>, reversed))"

text \<open>\<^verbatim>\<open>reactive(sourceFile)\<close>: the object gets a reference of its own.\<close>

definition reactive :: "SourceFile \<Rightarrow> State \<Rightarrow> nat \<times> State" where
  "reactive sourceFile st =
     (nextRef st, st\<lparr>heap := (heap st)(nextRef st := sourceFile), nextRef := Suc (nextRef st)\<rparr>)"

text \<open>
  The loop \<^verbatim>\<open>for (const languageModule of languageModules)\<close> with its \<^verbatim>\<open>break\<close>:
  the modules are asked in the order of the list until one returns a document.
\<close>

datatype Trial = Match SourceFile LanguageModule | NoMatch | ModuleThrew

fun firstMatch :: "LanguageModule list \<Rightarrow> string \<Rightarrow> string \<Rightarrow> Trial" where
  "firstMatch [] fileName' snapshot = NoMatch"
| "firstMatch (languageModule # rest) fileName' snapshot =
     (case createSourceFile languageModule fileName' snapshot of
        Created sourceFile \<Rightarrow> Match sourceFile languageModule
      | Declined \<Rightarrow> firstMatch rest fileName' snapshot
      | Thrown \<Rightarrow> ModuleThrew)"

text \<open>The local variables of \<^verbatim>\<open>update\<close>.\<close>

record UpdateVars =
  tsFileUpdated :: bool
  checkRemains :: "string list"
  sourceFilesShouldUpdate :: "(nat \<times> LanguageModule \<times> string) list"

text \<open>One round of the loop over \<^verbatim>\<open>documentRegistry.all()\<close> (comment \<^verbatim>\<open>// .vue\<close>).\<close>

definition update_vue :: "Host \<Rightarrow> nat \<times> LanguageModule \<Rightarrow> State \<times> UpdateVars \<Rightarrow> State \<times> UpdateVars" where
  "update_vue host entry sv =
     (let sourceFile = fst entry; languageModule = snd entry;
          st = fst sv; vars = snd sv;
          name = fileName (heap st sourceFile);
          vars1 = vars\<lparr>checkRemains := Set_delete name (checkRemains vars)\<rparr>
      in (case host_getScriptSnapshot host name of
            None \<Rightarrow>
              (st\<lparr>documentRegistry := reg_delete name (documentRegistry st)\<rparr>,
               vars1\<lparr>tsFileUpdated := True\<rparr>)
          | Some snapshot \<Rightarrow>
              (let newVersion = host_getScriptVersion host name in
               if sourceVueFileVersions st name \<noteq> Some newVersion
               then (st\<lparr>sourceVueFileVersions := (sourceVueFileVersions st)(name \<mapsto> newVersion)\<rparr>,
                     vars1\<lparr>sourceFilesShouldUpdate :=
                              sourceFilesShouldUpdate vars1 @ [(sourceFile, languageModule, snapshot)]\<rparr>)
               else (st, vars1))))"

text \<open>
  The loop over \<^verbatim>\<open>[...checkRemains]\<close> (comment \<^verbatim>\<open>// add\<close>). An exception of a
  language module leaves the loop and \<^verbatim>\<open>update\<close> with the state as it is then.
\<close>

fun update_add ::
  "Host \<Rightarrow> LanguageModule list \<Rightarrow> string list \<Rightarrow> State \<times> UpdateVars \<Rightarrow> unit Completion \<times> State \<times> UpdateVars" where
  "update_add host languageModules [] sv = (Returns (), sv)"
| "update_add host languageModules (fileName' # rest) sv =
     (let st = fst sv; vars = snd sv in
      (case host_getScriptSnapshot host fileName' of
         None \<Rightarrow> update_add host languageModules rest (st, vars)
       | Some snapshot \<Rightarrow>
           (case firstMatch languageModules fileName' snapshot of
              ModuleThrew \<Rightarrow> (Throws, st, vars)
            | NoMatch \<Rightarrow> update_add host languageModules rest (st, vars)
            | Match sourceFile languageModule \<Rightarrow>
                (let newVersion = host_getScriptVersion host fileName';
                     st1 = st\<lparr>sourceVueFileVersions :=
                                (sourceVueFileVersions st)(fileName sourceFile \<mapsto> newVersion)\<rparr>;
                     r = fst (reactive sourceFile st1);
                     st2 = snd (reactive sourceFile st1);
                     st3 = st2\<lparr>documentRegistry := reg_set fileName' r languageModule (documentRegistry st2)\<rparr>;
                     vars1 = vars\<lparr>checkRemains := Set_delete fileName' (checkRemains vars)\<rparr>
                 in update_add host languageModules rest (st3, vars1)))))"

text \<open>One round of the loop over \<^verbatim>\<open>[...sourceTsFileVersions]\<close>.\<close>

definition update_ts :: "Host \<Rightarrow> string \<times> string \<Rightarrow> State \<times> UpdateVars \<Rightarrow> State \<times> UpdateVars" where
  "update_ts host entry sv =
     (let oldTsFileName = fst entry; oldTsFileVersion = snd entry;
          st = fst sv; vars = snd sv;
          newVersion = host_getScriptVersion host oldTsFileName in
      if oldTsFileVersion \<noteq> newVersion
      then ((if oldTsFileName \<notin> set (checkRemains vars) \<and> host_getScriptSnapshot host oldTsFileName = None
             then st\<lparr>sourceTsFileVersions := AList.delete oldTsFileName (sourceTsFileVersions st)\<rparr>
             else st\<lparr>sourceTsFileVersions := AList.update oldTsFileName newVersion (sourceTsFileVersions st)\<rparr>),
            vars\<lparr>tsFileUpdated := True\<rparr>)
      else (st, vars))"

text \<open>One round of the loop over \<^verbatim>\<open>checkRemains\<close>.\<close>

definition update_now :: "Host \<Rightarrow> string \<Rightarrow> State \<times> UpdateVars \<Rightarrow> State \<times> UpdateVars" where
  "update_now host nowFileName sv =
     (let st = fst sv; vars = snd sv in
      if map_of (sourceTsFileVersions st) nowFileName = None
      then (let newVersion = host_getScriptVersion host nowFileName in
            (st\<lparr>sourceTsFileVersions := AList.update nowFileName newVersion (sourceTsFileVersions st)\<rparr>,
             vars\<lparr>tsFileUpdated := True\<rparr>))
      else (st, vars))"

text \<open>
  The record \<^verbatim>\<open>oldScripts\<close> or \<^verbatim>\<open>newScripts\<close> filled by a walk over the tree:
  the text of every embedded file of truthy kind, under its file name.
\<close>

definition collectScripts :: "SourceFile \<Rightarrow> (string \<times> string) list" where
  "collectScripts sourceFile =
     fold (\<lambda>embedded scripts.
             if truthy (kind embedded)
             then AList.update (fileName embedded) (text_of embedded) scripts
             else scripts)
          (forEachEmbeddeds sourceFile) []"

text \<open>
  The condition of the last \<^verbatim>\<open>if\<close> of the loop body; \<^verbatim>\<open>&&\<close> binds tighter than
  \<^verbatim>\<open>||\<close>.
\<close>

definition scriptsChanged :: "bool \<Rightarrow> (string \<times> string) list \<Rightarrow> (string \<times> string) list \<Rightarrow> bool" where
  "scriptsChanged updated oldScripts newScripts =
     ((\<not> updated \<and> length (map fst oldScripts) \<noteq> length (map fst newScripts))
      \<or> list_ex (\<lambda>fileName'. map_of oldScripts fileName' \<noteq> map_of newScripts fileName')
                 (map fst oldScripts))"

text \<open>One round of the loop over \<^verbatim>\<open>sourceFilesShouldUpdate\<close>.\<close>

definition update_reparse :: "nat \<times> LanguageModule \<times> string \<Rightarrow> State \<times> UpdateVars \<Rightarrow> State \<times> UpdateVars" where
  "update_reparse entry sv =
     (let sourceFile = fst entry; languageModule = fst (snd entry); snapshot = snd (snd entry);
          st = fst sv; vars = snd sv;
          st1 = st\<lparr>virtualFileVersions :=
                     fold (\<lambda>embedded versions. versions(fileName embedded := None))
                          (forEachEmbeddeds (heap st sourceFile)) (virtualFileVersions st)\<rparr>;
          oldScripts = (if \<not> tsFileUpdated vars then collectScripts (heap st1 sourceFile) else []);
          st2 = st1\<lparr>heap := (heap st1)(sourceFile := updateSourceFile languageModule (heap st1 sourceFile) snapshot)\<rparr>;
          st3 = st2\<lparr>documentRegistry := onSourceFileUpdated sourceFile (documentRegistry st2)\<rparr>;
          newScripts = (if \<not> tsFileUpdated vars then collectScripts (heap st3 sourceFile) else [])
      in if scriptsChanged (tsFileUpdated vars) oldScripts newScripts
         then (st3, vars\<lparr>tsFileUpdated := True\<rparr>)
         else (st3, vars))"

text \<open>
  The parts of \<^verbatim>\<open>update()\<close> in the order of the source: the loop over the
  registered documents with the test that follows it (no document queued means a
  change of some other file), the loops over the tracked and the reported other files,
  and the loop that re-parses the queued documents.
\<close>

definition update_documents :: "Host \<Rightarrow> State \<Rightarrow> State \<times> UpdateVars" where
  "update_documents host st0 =
     (let vars0 = \<lparr>tsFileUpdated = False,
                   checkRemains = new_Set (host_getScriptFileNames host),
                   sourceFilesShouldUpdate = []\<rparr>;
          sv1 = fold (update_vue host) (reg_all (documentRegistry st0)) (st0, vars0)
      in if sourceFilesShouldUpdate (snd sv1) = []
         then (fst sv1, (snd sv1)\<lparr>tsFileUpdated := True\<rparr>)
         else sv1)"

definition update_versions :: "Host \<Rightarrow> State \<times> UpdateVars \<Rightarrow> State \<times> UpdateVars" where
  "update_versions host sv3 =
     (let sv4 = fold (update_ts host) (sourceTsFileVersions (fst sv3)) sv3
      in fold (update_now host) (checkRemains (snd sv4)) sv4)"

definition update_sources :: "State \<times> UpdateVars \<Rightarrow> State \<times> UpdateVars" where
  "update_sources sv5 = fold update_reparse (sourceFilesShouldUpdate (snd sv5)) sv5"

definition shouldUpdate :: "Host \<Rightarrow> State \<Rightarrow> bool" where
  "shouldUpdate host st =
     (let newProjectVersion = host_getProjectVersion host
      in newProjectVersion = None \<or> newProjectVersion \<noteq> lastProjectVersion st)"

text \<open>\<^verbatim>\<open>update()\<close>, the reconcile pass run before every query.\<close>

definition update :: "Host \<Rightarrow> LanguageModule list \<Rightarrow> State \<Rightarrow> unit Completion \<times> State" where
  "update host languageModules st =
     (let newProjectVersion = host_getProjectVersion host;
          st0 = st\<lparr>lastProjectVersion := newProjectVersion\<rparr>
      in if \<not> shouldUpdate host st then (Returns (), st0)
      else
        (let sv2 = update_documents host st0 in
         case update_add host languageModules (checkRemains (snd sv2)) sv2 of
           (Throws, sv3) \<Rightarrow> (Throws, fst sv3)
         | (Returns _, sv3) \<Rightarrow>
             (let sv6 = update_sources (update_versions host sv3) in
              (Returns (),
               if tsFileUpdated (snd sv6)
               then (fst sv6)\<lparr>tsProjectVersion := Suc (tsProjectVersion (fst sv6))\<rparr>
               else fst sv6))))"

text \<open>The queries of the synthesized host.\<close>

definition getProjectVersion :: "State \<Rightarrow> nat" where
  "getProjectVersion st = tsProjectVersion st"

definition getScriptFileNames :: "Host \<Rightarrow> State \<Rightarrow> string list" where
  "getScriptFileNames host st =
     (let tsFileNames =
            fold (\<lambda>entry tsFileNames.
                    fold (\<lambda>embedded tsFileNames.
                            if kind embedded = TypeScriptHostFile
                            then Set_add (fileName embedded) tsFileNames
                            else tsFileNames)
                         (forEachEmbeddeds (heap st (fst entry))) tsFileNames)
                 (reg_all (documentRegistry st)) []
      in fold (\<lambda>fileName' tsFileNames.
                 if \<not> reg_has (documentRegistry st) fileName'
                 then Set_add fileName' tsFileNames
                 else tsFileNames)
              (host_getScriptFileNames host) tsFileNames)"

definition getScriptVersion :: "Host \<Rightarrow> string \<Rightarrow> State \<Rightarrow> string \<times> State" where
  "getScriptVersion host fileName' st =
     (case fromEmbeddedFileName (heap st) (documentRegistry st) fileName' of
        Some mapped \<Rightarrow>
          (case virtualFileVersions st (fileName (snd mapped)) of
             Some version \<Rightarrow> (version, st)
           | None \<Rightarrow>
               (let sourceFile = fst mapped; embedded = snd mapped;
                    version = (case createHash host of
                                 Some hash \<Rightarrow> hash (text_of embedded)
                               | None \<Rightarrow> text_of embedded);
                    version1 = (if isTsc host
                                then host_getScriptVersion host (fileName (heap st sourceFile)) @ '':'' @ version
                                else version)
                in (version1,
                    st\<lparr>virtualFileVersions := (virtualFileVersions st)(fileName embedded \<mapsto> version1)\<rparr>)))
      | None \<Rightarrow> (host_getScriptVersion host fileName', st))"

definition getScriptSnapshot :: "Host \<Rightarrow> string \<Rightarrow> State \<Rightarrow> string option \<times> State" where
  "getScriptSnapshot host fileName' st =
     (let version = fst (getScriptVersion host fileName' st);
          st1 = snd (getScriptVersion host fileName' st);
          cache = scriptSnapshots st1 (toLowerCase fileName') in
      if (case cache of Some c \<Rightarrow> fst c = version | None \<Rightarrow> False)
      then (map_option snd cache, st1)
      else
        (case fromEmbeddedFileName (heap st1) (documentRegistry st1) fileName' of
           Some mapped \<Rightarrow>
             (let snapshot = text_of (snd mapped); entry = (version, snapshot) in
              (Some snapshot,
               st1\<lparr>scriptSnapshots := (scriptSnapshots st1)(toLowerCase fileName' \<mapsto> entry)\<rparr>))
         | None \<Rightarrow>
             (case host_getScriptSnapshot host fileName' of
                Some tsScript \<Rightarrow>
                  (let entry = (version, tsScript) in
                   (Some tsScript,
                    st1\<lparr>scriptSnapshots := (scriptSnapshots st1)(toLowerCase fileName' \<mapsto> entry)\<rparr>))
              | None \<Rightarrow> (None, st1))))"

text \<open>
  \<^verbatim>\<open>fileName.lastIndexOf('.')\<close>, with \<open>None\<close> for \<open>-1\<close>;
  \<^verbatim>\<open>substring(0, -1)\<close> is the empty string.
\<close>

definition lastIndexOf :: "char \<Rightarrow> string \<Rightarrow> nat option" where
  "lastIndexOf c s =
     (if c \<in> set s then Some (length s - Suc (length (takeWhile (\<lambda>x. x \<noteq> c) (rev s)))) else None)"

definition substringBeforeLastDot :: "string \<Rightarrow> string" where
  "substringBeforeLastDot fileName' =
     (case lastIndexOf CHR ''.'' fileName' of Some i \<Rightarrow> take i fileName' | None \<Rightarrow> [])"

text \<open>The block under the comment \<^verbatim>\<open>// create virtual files\<close>.\<close>

definition createVirtualFiles ::
  "Host \<Rightarrow> LanguageModule list \<Rightarrow> string \<Rightarrow> State \<Rightarrow> unit Completion \<times> State" where
  "createVirtualFiles host languageModules vueFileName st =
     (if reg_get (documentRegistry st) vueFileName = None
      then (case host_getScriptSnapshot host vueFileName of
              None \<Rightarrow> (Returns (), st)
            | Some scriptSnapshot \<Rightarrow>
                (case firstMatch languageModules vueFileName scriptSnapshot of
                   ModuleThrew \<Rightarrow> (Throws, st)
                 | NoMatch \<Rightarrow> (Returns (), st)
                 | Match sourceFile languageModule \<Rightarrow>
                     (let r = fst (reactive sourceFile st);
                          st1 = snd (reactive sourceFile st)
                      in (Returns (),
                          st1\<lparr>documentRegistry :=
                                reg_set vueFileName r languageModule (documentRegistry st1)\<rparr>))))
      else (Returns (), st))"

definition fileExists :: "Host \<Rightarrow> LanguageModule list \<Rightarrow> string \<Rightarrow> State \<Rightarrow> bool Completion \<times> State" where
  "fileExists host languageModules fileName' st =
     (let vueFileName = substringBeforeLastDot fileName';
          created = createVirtualFiles host languageModules vueFileName st;
          st1 = snd created
      in case fst created of
           Throws \<Rightarrow> (Throws, st1)
         | Returns _ \<Rightarrow>
             (if fromEmbeddedFileName (heap st1) (documentRegistry st1) fileName' \<noteq> None
              then (Returns True, st1)
              else (Returns (case host_fileExists host of Some f \<Rightarrow> f fileName' | None \<Rightarrow> False), st1)))"

text \<open>
  The proxy \<^verbatim>\<open>typescriptLanguageServiceHost\<close>: reading a property runs
  \<^verbatim>\<open>update()\<close>, then the method found is called. \<^verbatim>\<open>fileExists\<close> is undefined
  when the host has none, and calling it is a type error.
\<close>

datatype Query =
    GetProjectVersion
  | GetScriptFileNames
  | GetScriptVersion string
  | GetScriptSnapshot string
  | FileExists string

datatype Answer =
    ProjectVersion nat
  | FileNames "string list"
  | ScriptVersion string
  | ScriptSnapshot "string option"
  | Exists bool

definition callMethod ::
  "Host \<Rightarrow> LanguageModule list \<Rightarrow> Query \<Rightarrow> State \<Rightarrow> Answer Completion \<times> State" where
  "callMethod host languageModules q st =
     (case q of
        GetProjectVersion \<Rightarrow> (Returns (ProjectVersion (getProjectVersion st)), st)
      | GetScriptFileNames \<Rightarrow> (Returns (FileNames (getScriptFileNames host st)), st)
      | GetScriptVersion fileName' \<Rightarrow>
          (let r = getScriptVersion host fileName' st
           in (Returns (ScriptVersion (fst r)), snd r))
      | GetScriptSnapshot fileName' \<Rightarrow>
          (let r = getScriptSnapshot host fileName' st
           in (Returns (ScriptSnapshot (fst r)), snd r))
      | FileExists fileName' \<Rightarrow>
          (if host_fileExists host = None then (Throws, st)
           else (let r = fileExists host languageModules fileName' st
                 in (case fst r of Throws \<Rightarrow> Throws | Returns b \<Rightarrow> Returns (Exists b), snd r))))"

definition typescriptLanguageServiceHost ::
  "Host \<Rightarrow> LanguageModule list \<Rightarrow> Query \<Rightarrow> State \<Rightarrow> Answer Completion \<times> State" where
  "typescriptLanguageServiceHost host languageModules q st =
     (let r = update host languageModules st
      in case fst r of
           Throws \<Rightarrow> (Throws, snd r)
         | Returns _ \<Rightarrow> callMethod host languageModules q (snd r))"

text \<open>A sequence of calls of the synthesized host, each with the host's answers then.\<close>

definition calls :: "LanguageModule list \<Rightarrow> (Host \<times> Query) list \<Rightarrow> State \<Rightarrow> State" where
  "calls languageModules cs st =
     fold (\<lambda>c st. snd (typescriptLanguageServiceHost (fst c) languageModules (snd c) st)) cs st"


text \<open>The file name of a registered document: \<^verbatim>\<open>sourceFile.fileName\<close>.\<close>

definition docName :: "State \<Rightarrow> nat \<times> LanguageModule \<Rightarrow> string" where
  "docName st entry = fileName (heap st (fst entry))"

text \<open>
  The references in the registry are in use and belong to one entry each, and a key
  occurs once: this holds initially and after every operation of the adapter.
\<close>

definition refs_ok :: "State \<Rightarrow> bool" where
  "refs_ok st =
     ((\<forall>e \<in> set (reg_all (documentRegistry st)). fst e < nextRef st)
      \<and> distinct (map fst (reg_all (documentRegistry st)))
      \<and> distinct (map fst (files (documentRegistry st))))"

text \<open>
  The host-visible embedded files of a document as a table from file name to text;
  where two nodes bear the same name, the one visited later counts.
\<close>

definition hostVisibleFiles :: "SourceFile \<Rightarrow> (string \<times> string) list" where
  "hostVisibleFiles sourceFile =
     map (\<lambda>e. (fileName e, text_of e))
       (filter (\<lambda>e. kind e = TypeScriptHostFile) (forEachEmbeddeds sourceFile))"

definition hostVisibleTexts :: "SourceFile \<Rightarrow> (string \<rightharpoonup> string)" where
  "hostVisibleTexts sourceFile = map_of (rev (hostVisibleFiles sourceFile))"

text \<open>Whether a round of the loop over the registered documents queues its document.\<close>

definition queues :: "Host \<Rightarrow> State \<Rightarrow> nat \<times> LanguageModule \<Rightarrow> bool" where
  "queues host st e =
     (host_getScriptSnapshot host (docName st e) \<noteq> None
      \<and> sourceVueFileVersions st (docName st e) \<noteq> Some (host_getScriptVersion host (docName st e)))"

text \<open>The state after the add step has registered a document for a reported file.\<close>

definition added :: "Host \<Rightarrow> string \<Rightarrow> SourceFile \<Rightarrow> LanguageModule \<Rightarrow> State \<Rightarrow> State" where
  "added host fileName' sourceFile languageModule st =
     st\<lparr>sourceVueFileVersions :=
          (sourceVueFileVersions st)(fileName sourceFile \<mapsto> host_getScriptVersion host fileName'),
        heap := (heap st)(nextRef st := sourceFile),
        nextRef := Suc (nextRef st),
        documentRegistry := reg_set fileName' (nextRef st) languageModule (documentRegistry st)\<rparr>"

section \<open>Example hosts and language modules\<close>

text \<open>
  A language module for \<^verbatim>\<open>a.widget\<close>: the document's root is an internal text
  file, its one child \<^verbatim>\<open>a.widget.ts\<close> is host-visible and holds the first seven
  characters of the document's text.
\<close>

definition widgetTree :: "string \<Rightarrow> string \<Rightarrow> SourceFile" where
  "widgetTree name snapshot =
     EmbeddedFile name snapshot TextFile (Mappings 0 []) None
       [EmbeddedFile (name @ ''.ts'') (take 7 snapshot) TypeScriptHostFile (Mappings 1 []) None []]"

definition widgetModule :: LanguageModule where
  "widgetModule =
     \<lparr>proxyLanguageServiceHost = None,
      createSourceFile = (\<lambda>name snapshot.
         if name = ''a.widget'' then Created (widgetTree name snapshot) else Declined),
      updateSourceFile = (\<lambda>sourceFile snapshot. widgetTree (fileName sourceFile) snapshot)\<rparr>"

text \<open>A host with a project version, the document \<^verbatim>\<open>a.widget\<close> and the file \<^verbatim>\<open>b.txt\<close>.\<close>

definition hostA :: Host where
  "hostA =
     \<lparr>host_getProjectVersion = Some ''1'',
      host_getScriptFileNames = [''a.widget'', ''b.txt''],
      host_getScriptVersion = (\<lambda>name. ''1''),
      host_getScriptSnapshot = (\<lambda>name.
         if name = ''a.widget'' then Some ''let x=1 // one''
         else if name = ''b.txt'' then Some ''hello'' else None),
      host_fileExists = None, isTsc = False, createHash = None\<rparr>"

text \<open>
  The same host later: \<^verbatim>\<open>a.widget\<close> has a new version and a new comment, the
  first seven characters are as before.
\<close>

definition hostB :: Host where
  "hostB =
     \<lparr>host_getProjectVersion = Some ''2'',
      host_getScriptFileNames = [''a.widget'', ''b.txt''],
      host_getScriptVersion = (\<lambda>name. if name = ''a.widget'' then ''2'' else ''1''),
      host_getScriptSnapshot = (\<lambda>name.
         if name = ''a.widget'' then Some ''let x=1 // two''
         else if name = ''b.txt'' then Some ''hello'' else None),
      host_fileExists = None, isTsc = False, createHash = None\<rparr>"

text \<open>A host without a project version and without files.\<close>

definition hostN :: Host where
  "hostN =
     \<lparr>host_getProjectVersion = None,
      host_getScriptFileNames = [],
      host_getScriptVersion = (\<lambda>name. ''0''),
      host_getScriptSnapshot = (\<lambda>name. None),
      host_fileExists = None, isTsc = False, createHash = None\<rparr>"

text \<open>A language module whose document for \<^verbatim>\<open>a.widget\<close> is itself host-visible.\<close>

definition rootVisibleModule :: LanguageModule where
  "rootVisibleModule =
     \<lparr>proxyLanguageServiceHost = None,
      createSourceFile = (\<lambda>name snapshot.
         if name = ''a.widget''
         then Created (EmbeddedFile name snapshot TypeScriptHostFile (Mappings 0 []) None [])
         else Declined),
      updateSourceFile = (\<lambda>sourceFile snapshot.
         EmbeddedFile (fileName sourceFile) snapshot TypeScriptHostFile (Mappings 0 []) None [])\<rparr>"

text \<open>The states after the first reconcile pass with \<open>hostA\<close>.\<close>

definition stateA :: State where
  "stateA = snd (update hostA [widgetModule] initialState)"

definition stateRootVisible :: State where
  "stateRootVisible = snd (update hostA [rootVisibleModule] initialState)"

section \<open>Properties of the mapping cache\<close>

lemma request_cached_hit:
  assumes "cached tk reg file (tableRef m) = Some t"
  shows "request tk file m reg = (t, reg)"
  using assms
  by (cases tk)
     (auto simp: request_def cached_def getSourceMap_def getTeleport_def Let_def
           split: option.splits)

lemma request_cached_miss:
  assumes "cached tk reg file (tableRef m) = None"
  shows "fst (request tk file m reg) = Translator (nextInstance reg) m"
    and "cached tk (snd (request tk file m reg)) file (tableRef m) = Some (Translator (nextInstance reg) m)"
    and "nextInstance (snd (request tk file m reg)) = Suc (nextInstance reg)"
  using assms
  by (cases tk;
      auto simp: request_def cached_def getSourceMap_def getTeleport_def Let_def
           split: option.splits)+


lemma request_cached_other:
  "cached tk' (snd (request tk file m reg)) file' k =
     (if tk' = tk \<and> file' = file \<and> k = tableRef m
      then Some (fst (request tk file m reg))
      else cached tk' reg file' k)"
  by (cases tk; cases tk')
     (auto simp: request_def cached_def getSourceMap_def getTeleport_def Let_def
           split: option.splits)

lemma nextInstance_request:
  "nextInstance reg \<le> nextInstance (snd (request tk file m reg))"
  by (cases tk)
     (auto simp: request_def getSourceMap_def getTeleport_def Let_def split: option.splits)

lemma cached_onSourceFileUpdated:
  "cached tk (onSourceFileUpdated file reg) file' k =
     (if file' = file then None else cached tk reg file' k)"
  by (cases tk) (auto simp: cached_def onSourceFileUpdated_def)

lemma nextInstance_onSourceFileUpdated [simp]:
  "nextInstance (onSourceFileUpdated file reg) = nextInstance reg"
  by (simp add: onSourceFileUpdated_def)



lemma fst_request_fresh_or_cached:
  "cached tk reg file (tableRef m) = Some (fst (request tk file m reg))
   \<or> (cached tk reg file (tableRef m) = None
      \<and> instanceRef (fst (request tk file m reg)) = nextInstance reg
      \<and> nextInstance (snd (request tk file m reg)) = Suc (nextInstance reg))"
proof (cases "cached tk reg file (tableRef m)")
  case None
  then show ?thesis by (simp add: request_cached_miss)
next
  case (Some t)
  then show ?thesis by (simp add: request_cached_hit)
qed

lemma cache_ok_request: "cache_ok reg \<Longrightarrow> cache_ok (snd (request tk file m reg))"
  unfolding cache_ok_def
proof (intro allI impI)
  fix tk' file' k t
  assume ok: "\<forall>tk file k t. cached tk reg file k = Some t \<longrightarrow> instanceRef t < nextInstance reg"
    and c: "cached tk' (snd (request tk file m reg)) file' k = Some t"
  have mono: "nextInstance reg \<le> nextInstance (snd (request tk file m reg))"
    by (rule nextInstance_request)
  show "instanceRef t < nextInstance (snd (request tk file m reg))"
  proof (cases "tk' = tk \<and> file' = file \<and> k = tableRef m")
    case True
    with c have t: "t = fst (request tk file m reg)"
      by (simp add: request_cached_other)
    from fst_request_fresh_or_cached [of tk reg "file" m] show ?thesis
    proof
      assume "cached tk reg file (tableRef m) = Some (fst (request tk file m reg))"
      with ok t have "instanceRef t < nextInstance reg" by blast
      with mono show ?thesis by simp
    next
      assume "cached tk reg file (tableRef m) = None
        \<and> instanceRef (fst (request tk file m reg)) = nextInstance reg
        \<and> nextInstance (snd (request tk file m reg)) = Suc (nextInstance reg)"
      with t show ?thesis by simp
    qed
  next
    case False
    with c have "cached tk' reg file' k = Some t"
      by (simp add: request_cached_other split: if_splits)
    with ok have "instanceRef t < nextInstance reg" by blast
    with mono show ?thesis by simp
  qed
qed

lemma cache_ok_onSourceFileUpdated: "cache_ok reg \<Longrightarrow> cache_ok (onSourceFileUpdated file reg)"
  by (auto simp: cache_ok_def cached_onSourceFileUpdated split: if_splits)

lemma cache_ok_cacheCall: "cache_ok reg \<Longrightarrow> cache_ok (cacheCall c reg)"
  by (cases c) (simp_all add: cache_ok_request cache_ok_onSourceFileUpdated)

lemma cache_ok_cacheCalls: "cache_ok reg \<Longrightarrow> cache_ok (fold cacheCall cs reg)"
  by (induction cs arbitrary: reg) (simp_all add: cache_ok_cacheCall)








section \<open>What each part of the reconcile pass leaves unchanged\<close>

lemma fold_preserves:
  assumes "\<And>x s. g (f x s) = g s"
  shows "g (fold f xs s) = g s"
  by (induction xs arbitrary: s) (simp_all add: assms)

lemma update_vue_frame:
  "tsProjectVersion (fst (update_vue host e sv)) = tsProjectVersion (fst sv)"
  "lastProjectVersion (fst (update_vue host e sv)) = lastProjectVersion (fst sv)"
  "heap (fst (update_vue host e sv)) = heap (fst sv)"
  "nextRef (fst (update_vue host e sv)) = nextRef (fst sv)"
  "sourceTsFileVersions (fst (update_vue host e sv)) = sourceTsFileVersions (fst sv)"
  "virtualFileVersions (fst (update_vue host e sv)) = virtualFileVersions (fst sv)"
  "scriptSnapshots (fst (update_vue host e sv)) = scriptSnapshots (fst sv)"
  by (simp_all add: update_vue_def Let_def split: option.splits)

lemma update_ts_frame:
  "tsProjectVersion (fst (update_ts host e sv)) = tsProjectVersion (fst sv)"
  "lastProjectVersion (fst (update_ts host e sv)) = lastProjectVersion (fst sv)"
  "heap (fst (update_ts host e sv)) = heap (fst sv)"
  "nextRef (fst (update_ts host e sv)) = nextRef (fst sv)"
  "documentRegistry (fst (update_ts host e sv)) = documentRegistry (fst sv)"
  "sourceVueFileVersions (fst (update_ts host e sv)) = sourceVueFileVersions (fst sv)"
  "virtualFileVersions (fst (update_ts host e sv)) = virtualFileVersions (fst sv)"
  "scriptSnapshots (fst (update_ts host e sv)) = scriptSnapshots (fst sv)"
  "checkRemains (snd (update_ts host e sv)) = checkRemains (snd sv)"
  "sourceFilesShouldUpdate (snd (update_ts host e sv)) = sourceFilesShouldUpdate (snd sv)"
  by (simp_all add: update_ts_def Let_def)

lemma update_now_frame:
  "tsProjectVersion (fst (update_now host e sv)) = tsProjectVersion (fst sv)"
  "lastProjectVersion (fst (update_now host e sv)) = lastProjectVersion (fst sv)"
  "heap (fst (update_now host e sv)) = heap (fst sv)"
  "nextRef (fst (update_now host e sv)) = nextRef (fst sv)"
  "documentRegistry (fst (update_now host e sv)) = documentRegistry (fst sv)"
  "sourceVueFileVersions (fst (update_now host e sv)) = sourceVueFileVersions (fst sv)"
  "virtualFileVersions (fst (update_now host e sv)) = virtualFileVersions (fst sv)"
  "scriptSnapshots (fst (update_now host e sv)) = scriptSnapshots (fst sv)"
  "checkRemains (snd (update_now host e sv)) = checkRemains (snd sv)"
  "sourceFilesShouldUpdate (snd (update_now host e sv)) = sourceFilesShouldUpdate (snd sv)"
  by (simp_all add: update_now_def Let_def)

lemma update_reparse_frame:
  "tsProjectVersion (fst (update_reparse e sv)) = tsProjectVersion (fst sv)"
  "lastProjectVersion (fst (update_reparse e sv)) = lastProjectVersion (fst sv)"
  "nextRef (fst (update_reparse e sv)) = nextRef (fst sv)"
  "files (documentRegistry (fst (update_reparse e sv))) = files (documentRegistry (fst sv))"
  "sourceTsFileVersions (fst (update_reparse e sv)) = sourceTsFileVersions (fst sv)"
  "sourceVueFileVersions (fst (update_reparse e sv)) = sourceVueFileVersions (fst sv)"
  "scriptSnapshots (fst (update_reparse e sv)) = scriptSnapshots (fst sv)"
  "checkRemains (snd (update_reparse e sv)) = checkRemains (snd sv)"
  "sourceFilesShouldUpdate (snd (update_reparse e sv)) = sourceFilesShouldUpdate (snd sv)"
  by (simp_all add: update_reparse_def Let_def onSourceFileUpdated_def)

lemma update_add_frame:
  "tsProjectVersion (fst (snd (update_add host mods fs sv))) = tsProjectVersion (fst sv)
   \<and> lastProjectVersion (fst (snd (update_add host mods fs sv))) = lastProjectVersion (fst sv)
   \<and> sourceTsFileVersions (fst (snd (update_add host mods fs sv))) = sourceTsFileVersions (fst sv)
   \<and> virtualFileVersions (fst (snd (update_add host mods fs sv))) = virtualFileVersions (fst sv)
   \<and> scriptSnapshots (fst (snd (update_add host mods fs sv))) = scriptSnapshots (fst sv)
   \<and> tsFileUpdated (snd (snd (update_add host mods fs sv))) = tsFileUpdated (snd sv)
   \<and> sourceFilesShouldUpdate (snd (snd (update_add host mods fs sv))) = sourceFilesShouldUpdate (snd sv)"
  by (induction fs arbitrary: sv)
     (simp_all add: Let_def reactive_def split: option.splits Trial.splits)


lemma update_skip:
  assumes "\<not> shouldUpdate host st"
  shows "update host mods st = (Returns (), st)"
proof -
  from assms have "lastProjectVersion st = host_getProjectVersion host"
    by (auto simp: shouldUpdate_def Let_def)
  then have "st\<lparr>lastProjectVersion := host_getProjectVersion host\<rparr> = st" by simp
  with assms show ?thesis by (simp add: update_def Let_def)
qed

lemma update_run:
  assumes "shouldUpdate host st"
    and "update_add host mods
           (checkRemains (snd (update_documents host (st\<lparr>lastProjectVersion := host_getProjectVersion host\<rparr>))))
           (update_documents host (st\<lparr>lastProjectVersion := host_getProjectVersion host\<rparr>)) = (c, sv3)"
  shows "update host mods st =
     (case c of
        Throws \<Rightarrow> (Throws, fst sv3)
      | Returns _ \<Rightarrow>
          (Returns (),
           if tsFileUpdated (snd (update_sources (update_versions host sv3)))
           then (fst (update_sources (update_versions host sv3)))
                  \<lparr>tsProjectVersion := Suc (tsProjectVersion (fst (update_sources (update_versions host sv3))))\<rparr>
           else fst (update_sources (update_versions host sv3))))"
  using assms by (cases c) (simp_all add: update_def Let_def)

lemma update_documents_frame:
  "tsProjectVersion (fst (update_documents host st)) = tsProjectVersion st"
  "lastProjectVersion (fst (update_documents host st)) = lastProjectVersion st"
  "heap (fst (update_documents host st)) = heap st"
  "nextRef (fst (update_documents host st)) = nextRef st"
  "sourceTsFileVersions (fst (update_documents host st)) = sourceTsFileVersions st"
  "virtualFileVersions (fst (update_documents host st)) = virtualFileVersions st"
  "scriptSnapshots (fst (update_documents host st)) = scriptSnapshots st"
  by (simp_all add: update_documents_def Let_def
        fold_preserves [where g = "\<lambda>sv. tsProjectVersion (fst sv)"]
        fold_preserves [where g = "\<lambda>sv. lastProjectVersion (fst sv)"]
        fold_preserves [where g = "\<lambda>sv. heap (fst sv)"]
        fold_preserves [where g = "\<lambda>sv. nextRef (fst sv)"]
        fold_preserves [where g = "\<lambda>sv. sourceTsFileVersions (fst sv)"]
        fold_preserves [where g = "\<lambda>sv. virtualFileVersions (fst sv)"]
        fold_preserves [where g = "\<lambda>sv. scriptSnapshots (fst sv)"]
        update_vue_frame)

lemma update_versions_frame:
  "tsProjectVersion (fst (update_versions host sv)) = tsProjectVersion (fst sv)"
  "lastProjectVersion (fst (update_versions host sv)) = lastProjectVersion (fst sv)"
  "heap (fst (update_versions host sv)) = heap (fst sv)"
  "nextRef (fst (update_versions host sv)) = nextRef (fst sv)"
  "documentRegistry (fst (update_versions host sv)) = documentRegistry (fst sv)"
  "sourceVueFileVersions (fst (update_versions host sv)) = sourceVueFileVersions (fst sv)"
  "virtualFileVersions (fst (update_versions host sv)) = virtualFileVersions (fst sv)"
  "scriptSnapshots (fst (update_versions host sv)) = scriptSnapshots (fst sv)"
  "checkRemains (snd (update_versions host sv)) = checkRemains (snd sv)"
  "sourceFilesShouldUpdate (snd (update_versions host sv)) = sourceFilesShouldUpdate (snd sv)"
  by (simp_all add: update_versions_def Let_def
        fold_preserves [where g = "\<lambda>sv. tsProjectVersion (fst sv)"]
        fold_preserves [where g = "\<lambda>sv. lastProjectVersion (fst sv)"]
        fold_preserves [where g = "\<lambda>sv. heap (fst sv)"]
        fold_preserves [where g = "\<lambda>sv. nextRef (fst sv)"]
        fold_preserves [where g = "\<lambda>sv. documentRegistry (fst sv)"]
        fold_preserves [where g = "\<lambda>sv. sourceVueFileVersions (fst sv)"]
        fold_preserves [where g = "\<lambda>sv. virtualFileVersions (fst sv)"]
        fold_preserves [where g = "\<lambda>sv. scriptSnapshots (fst sv)"]
        fold_preserves [where g = "\<lambda>sv. checkRemains (snd sv)"]
        fold_preserves [where g = "\<lambda>sv. sourceFilesShouldUpdate (snd sv)"]
        update_ts_frame update_now_frame)

lemma update_sources_frame:
  "tsProjectVersion (fst (update_sources sv)) = tsProjectVersion (fst sv)"
  "lastProjectVersion (fst (update_sources sv)) = lastProjectVersion (fst sv)"
  "nextRef (fst (update_sources sv)) = nextRef (fst sv)"
  "files (documentRegistry (fst (update_sources sv))) = files (documentRegistry (fst sv))"
  "sourceTsFileVersions (fst (update_sources sv)) = sourceTsFileVersions (fst sv)"
  "sourceVueFileVersions (fst (update_sources sv)) = sourceVueFileVersions (fst sv)"
  "scriptSnapshots (fst (update_sources sv)) = scriptSnapshots (fst sv)"
  "checkRemains (snd (update_sources sv)) = checkRemains (snd sv)"
  "sourceFilesShouldUpdate (snd (update_sources sv)) = sourceFilesShouldUpdate (snd sv)"
  by (simp_all add: update_sources_def
        fold_preserves [where g = "\<lambda>sv. tsProjectVersion (fst sv)"]
        fold_preserves [where g = "\<lambda>sv. lastProjectVersion (fst sv)"]
        fold_preserves [where g = "\<lambda>sv. nextRef (fst sv)"]
        fold_preserves [where g = "\<lambda>sv. files (documentRegistry (fst sv))"]
        fold_preserves [where g = "\<lambda>sv. sourceTsFileVersions (fst sv)"]
        fold_preserves [where g = "\<lambda>sv. sourceVueFileVersions (fst sv)"]
        fold_preserves [where g = "\<lambda>sv. scriptSnapshots (fst sv)"]
        fold_preserves [where g = "\<lambda>sv. checkRemains (snd sv)"]
        fold_preserves [where g = "\<lambda>sv. sourceFilesShouldUpdate (snd sv)"]
        update_reparse_frame)

lemma update_counter_step:
  "tsProjectVersion (snd (update host mods st)) = tsProjectVersion st
   \<or> tsProjectVersion (snd (update host mods st)) = Suc (tsProjectVersion st)"
proof (cases "shouldUpdate host st")
  case False
  then show ?thesis by (simp add: update_skip)
next
  case True
  let ?st0 = "st\<lparr>lastProjectVersion := host_getProjectVersion host\<rparr>"
  obtain c sv3 where r: "update_add host mods (checkRemains (snd (update_documents host ?st0)))
      (update_documents host ?st0) = (c, sv3)"
    by (cases "update_add host mods (checkRemains (snd (update_documents host ?st0))) (update_documents host ?st0)") auto
  have f: "tsProjectVersion (fst sv3) = tsProjectVersion st"
    using update_add_frame [of host mods "checkRemains (snd (update_documents host ?st0))" "update_documents host ?st0"] r
    by (simp add: update_documents_frame)
  show ?thesis
    unfolding update_run [OF True r]
    by (cases c) (simp_all add: f update_sources_frame update_versions_frame)
qed


lemma getScriptVersion_frame:
  "tsProjectVersion (snd (getScriptVersion host f st)) = tsProjectVersion st"
  "lastProjectVersion (snd (getScriptVersion host f st)) = lastProjectVersion st"
  "heap (snd (getScriptVersion host f st)) = heap st"
  "nextRef (snd (getScriptVersion host f st)) = nextRef st"
  "documentRegistry (snd (getScriptVersion host f st)) = documentRegistry st"
  "scriptSnapshots (snd (getScriptVersion host f st)) = scriptSnapshots st"
  "sourceTsFileVersions (snd (getScriptVersion host f st)) = sourceTsFileVersions st"
  "sourceVueFileVersions (snd (getScriptVersion host f st)) = sourceVueFileVersions st"
  by (simp_all add: getScriptVersion_def Let_def split: option.splits)

lemma getScriptSnapshot_frame:
  "tsProjectVersion (snd (getScriptSnapshot host f st)) = tsProjectVersion st"
  "lastProjectVersion (snd (getScriptSnapshot host f st)) = lastProjectVersion st"
  "heap (snd (getScriptSnapshot host f st)) = heap st"
  "nextRef (snd (getScriptSnapshot host f st)) = nextRef st"
  "documentRegistry (snd (getScriptSnapshot host f st)) = documentRegistry st"
  "sourceTsFileVersions (snd (getScriptSnapshot host f st)) = sourceTsFileVersions st"
  "sourceVueFileVersions (snd (getScriptSnapshot host f st)) = sourceVueFileVersions st"
  by (simp_all add: getScriptSnapshot_def Let_def getScriptVersion_frame split: option.splits)

lemma fileExists_frame:
  "tsProjectVersion (snd (fileExists host mods f st)) = tsProjectVersion st"
  "lastProjectVersion (snd (fileExists host mods f st)) = lastProjectVersion st"
  "scriptSnapshots (snd (fileExists host mods f st)) = scriptSnapshots st"
  "sourceTsFileVersions (snd (fileExists host mods f st)) = sourceTsFileVersions st"
  "sourceVueFileVersions (snd (fileExists host mods f st)) = sourceVueFileVersions st"
  "virtualFileVersions (snd (fileExists host mods f st)) = virtualFileVersions st"
  by (simp_all add: fileExists_def createVirtualFiles_def Let_def reactive_def
        split: option.splits Trial.splits Completion.splits)

lemma update_frame:
  "lastProjectVersion (snd (update host mods st)) = host_getProjectVersion host"
  "scriptSnapshots (snd (update host mods st)) = scriptSnapshots st"
proof -
  let ?st0 = "st\<lparr>lastProjectVersion := host_getProjectVersion host\<rparr>"
  obtain c sv3 where r: "update_add host mods (checkRemains (snd (update_documents host ?st0)))
      (update_documents host ?st0) = (c, sv3)"
    by (cases "update_add host mods (checkRemains (snd (update_documents host ?st0))) (update_documents host ?st0)") auto
  have f: "lastProjectVersion (fst sv3) = host_getProjectVersion host"
     "scriptSnapshots (fst sv3) = scriptSnapshots st"
    using update_add_frame [of host mods "checkRemains (snd (update_documents host ?st0))" "update_documents host ?st0"] r
    by (simp_all add: update_documents_frame)
  show "lastProjectVersion (snd (update host mods st)) = host_getProjectVersion host"
  proof (cases "shouldUpdate host st")
    case False
    then have "lastProjectVersion st = host_getProjectVersion host"
      by (auto simp: shouldUpdate_def Let_def)
    with False show ?thesis by (simp add: update_skip)
  next
    case True
    show ?thesis unfolding update_run [OF True r]
      by (cases c) (simp_all add: f update_sources_frame update_versions_frame)
  qed
  show "scriptSnapshots (snd (update host mods st)) = scriptSnapshots st"
  proof (cases "shouldUpdate host st")
    case False
    then show ?thesis by (simp add: update_skip)
  next
    case True
    show ?thesis unfolding update_run [OF True r]
      by (cases c) (simp_all add: f update_sources_frame update_versions_frame)
  qed
qed

lemma callMethod_frame:
  "tsProjectVersion (snd (callMethod host mods q st)) = tsProjectVersion st"
  "lastProjectVersion (snd (callMethod host mods q st)) = lastProjectVersion st"
  by (cases q; simp add: callMethod_def Let_def getScriptVersion_frame getScriptSnapshot_frame
        fileExists_frame)+

lemma surface_counter:
  "tsProjectVersion (snd (typescriptLanguageServiceHost host mods q st)) = tsProjectVersion (snd (update host mods st))"
  by (cases "fst (update host mods st)")
     (simp_all add: typescriptLanguageServiceHost_def Let_def callMethod_frame)

lemma surface_lastProjectVersion:
  "lastProjectVersion (snd (typescriptLanguageServiceHost host mods q st)) = host_getProjectVersion host"
  by (cases "fst (update host mods st)")
     (simp_all add: typescriptLanguageServiceHost_def Let_def callMethod_frame update_frame)

lemma calls_counter_mono: "tsProjectVersion st \<le> tsProjectVersion (calls mods cs st)"
proof (induction cs arbitrary: st)
  case Nil
  show ?case by (simp add: calls_def)
next
  case (Cons c cs)
  let ?st1 = "snd (typescriptLanguageServiceHost (fst c) mods (snd c) st)"
  have "tsProjectVersion st \<le> tsProjectVersion ?st1"
    using update_counter_step [of "fst c" mods st] by (auto simp: surface_counter)
  also have "\<dots> \<le> tsProjectVersion (calls mods cs ?st1)" by (rule Cons.IH)
  finally show ?case by (simp add: calls_def)
qed

lemma calls_append: "calls mods (cs @ cs') st = calls mods cs' (calls mods cs st)"
  by (simp add: calls_def)


section \<open>Asking twice\<close>

lemma getScriptVersion_again:
  "getScriptVersion host f (snd (getScriptVersion host f st)) = getScriptVersion host f st"
  by (simp add: getScriptVersion_def Let_def split: option.splits)

lemma getScriptVersion_scriptSnapshots:
  "getScriptVersion host f (st\<lparr>scriptSnapshots := x\<rparr>) =
     (fst (getScriptVersion host f st), (snd (getScriptVersion host f st))\<lparr>scriptSnapshots := x\<rparr>)"
  by (simp add: getScriptVersion_def Let_def split: option.splits)

lemma getScriptSnapshot_again:
  "getScriptSnapshot host f (snd (getScriptSnapshot host f st)) = getScriptSnapshot host f st"
proof -
  let ?r = "getScriptVersion host f st"
  have again: "getScriptVersion host f (snd ?r) = ?r" by (rule getScriptVersion_again)
  show ?thesis
    by (simp add: getScriptSnapshot_def [of host f st] getScriptSnapshot_def [of host f "snd ?r"]
         getScriptSnapshot_def [of host f "(snd ?r)\<lparr>scriptSnapshots := x\<rparr>" for x]
         getScriptVersion_scriptSnapshots again Let_def getScriptVersion_frame
       split: option.splits)
qed

lemma reg_get_reg_set: "reg_get (reg_set f r m reg) f = Some (r, m)"
  by (simp add: reg_get_def reg_set_def update_conv')

lemma createVirtualFiles_again:
  "fst (createVirtualFiles host mods v (snd (createVirtualFiles host mods v st))) =
     fst (createVirtualFiles host mods v st)
   \<and> snd (createVirtualFiles host mods v (snd (createVirtualFiles host mods v st))) =
     snd (createVirtualFiles host mods v st)"
proof (cases "reg_get (documentRegistry st) v")
  case (Some e)
  then show ?thesis by (simp add: createVirtualFiles_def)
next
  case None
  note unreg = None
  show ?thesis
  proof (cases "host_getScriptSnapshot host v")
    case None
    with unreg show ?thesis by (simp add: createVirtualFiles_def)
  next
    case (Some snap)
    show ?thesis
    proof (cases "firstMatch mods v snap")
      case (Match sf lm)
      with unreg Some show ?thesis
        by (simp add: createVirtualFiles_def Let_def reactive_def reg_get_reg_set)
    next
      case NoMatch
      with unreg Some show ?thesis by (simp add: createVirtualFiles_def)
    next
      case ModuleThrew
      with unreg Some show ?thesis by (simp add: createVirtualFiles_def)
    qed
  qed
qed

lemma fileExists_again:
  "fileExists host mods f (snd (fileExists host mods f st)) = fileExists host mods f st"
proof -
  let ?v = "substringBeforeLastDot f"
  let ?c = "createVirtualFiles host mods ?v st"
  let ?c2 = "createVirtualFiles host mods ?v (snd ?c)"
  have s: "snd (fileExists host mods f st) = snd ?c"
    by (cases "fst ?c") (simp_all add: fileExists_def Let_def)
  have c2: "fst ?c2 = fst ?c" "snd ?c2 = snd ?c"
    using createVirtualFiles_again [of host mods ?v st] by simp_all
  have "fileExists host mods f (snd ?c) = fileExists host mods f st"
    by (cases "fst ?c")
       (simp_all add: fileExists_def [of host mods f "snd ?c"] fileExists_def [of host mods f st] Let_def c2)
  then show ?thesis by (simp only: s)
qed

lemma callMethod_again:
  "callMethod host mods q (snd (callMethod host mods q st)) = callMethod host mods q st"
  by (cases q)
     (simp_all add: callMethod_def Let_def getScriptVersion_again getScriptSnapshot_again
        fileExists_again)


section \<open>Sets as lists, and the enumeration of file names\<close>

lemma set_Set_add [simp]: "set (Set_add x s) = insert x (set s)"
  by (auto simp: Set_add_def)

lemma distinct_Set_add [simp]: "distinct (Set_add x s) = distinct s"
  by (auto simp: Set_add_def)

lemma set_fold_Set_add_if:
  "set (fold (\<lambda>x acc. if P x then Set_add (g x) acc else acc) xs acc)
     = set acc \<union> {g x |x. x \<in> set xs \<and> P x}"
  by (induction xs arbitrary: acc) auto

lemma distinct_fold_Set_add_if:
  "distinct (fold (\<lambda>x acc. if P x then Set_add (g x) acc else acc) xs acc) = distinct acc"
  by (induction xs arbitrary: acc) auto

lemma set_new_Set [simp]: "set (new_Set xs) = set xs"
  using set_fold_Set_add_if [of "\<lambda>_. True" "\<lambda>x. x" xs "[]"] by (simp add: new_Set_def)

lemma distinct_new_Set [simp]: "distinct (new_Set xs)"
  using distinct_fold_Set_add_if [of "\<lambda>_. True" "\<lambda>x. x" xs "[]"] by (simp add: new_Set_def)




section \<open>The trial of the language modules\<close>



lemma firstMatch_NoMatch:
  "firstMatch ms f s = NoMatch \<longleftrightarrow> (\<forall>m \<in> set ms. createSourceFile m f s = Declined)"
  by (induction ms) (auto split: CreateResult.splits)

lemma firstMatch_Threw:
  "firstMatch ms f s = ModuleThrew \<Longrightarrow> \<exists>m \<in> set ms. createSourceFile m f s = Thrown"
  by (induction ms) (auto split: CreateResult.splits)

lemma firstMatch_Match:
  "firstMatch ms f s = Match sf m \<Longrightarrow>
     \<exists>pre post. ms = pre @ m # post \<and> (\<forall>m' \<in> set pre. createSourceFile m' f s = Declined)
        \<and> createSourceFile m f s = Created sf"
proof (induction ms)
  case Nil
  then show ?case by simp
next
  case (Cons a ms)
  show ?case
  proof (cases "createSourceFile a f s")
    case (Created sf')
    with Cons.prems have "sf' = sf" "a = m" by simp_all
    with Created have "a # ms = [] @ m # ms \<and> (\<forall>m' \<in> set []. createSourceFile m' f s = Declined)
        \<and> createSourceFile m f s = Created sf" by simp
    then show ?thesis by blast
  next
    case Declined
    with Cons.prems have "firstMatch ms f s = Match sf m" by simp
    from Cons.IH [OF this] obtain pre post where
      "ms = pre @ m # post" "\<forall>m' \<in> set pre. createSourceFile m' f s = Declined"
      "createSourceFile m f s = Created sf" by blast
    with Declined have "a # ms = (a # pre) @ m # post
        \<and> (\<forall>m' \<in> set (a # pre). createSourceFile m' f s = Declined)
        \<and> createSourceFile m f s = Created sf" by simp
    then show ?thesis by blast
  next
    case Thrown
    with Cons.prems show ?thesis by simp
  qed
qed

section \<open>The loop over the registered documents\<close>

lemma update_vue_heap_fold:
  "heap (fst (fold (update_vue host) es sv)) = heap (fst sv)"
  "nextRef (fst (fold (update_vue host) es sv)) = nextRef (fst sv)"
  by (simp_all add: fold_preserves [where g = "\<lambda>sv. heap (fst sv)"]
        fold_preserves [where g = "\<lambda>sv. nextRef (fst sv)"] update_vue_frame)

lemma docName_heap: "heap st' = heap st \<Longrightarrow> docName st' e = docName st e"
  by (simp add: docName_def)

lemma update_vue_step:
  "files (documentRegistry (fst (update_vue host e sv))) =
     (if host_getScriptSnapshot host (docName (fst sv) e) = None
      then AList.delete (normalizePath (docName (fst sv) e)) (files (documentRegistry (fst sv)))
      else files (documentRegistry (fst sv)))"
  "tsFileUpdated (snd (update_vue host e sv)) =
     (tsFileUpdated (snd sv) \<or> host_getScriptSnapshot host (docName (fst sv) e) = None)"
  "checkRemains (snd (update_vue host e sv)) = removeAll (docName (fst sv) e) (checkRemains (snd sv))"
  by (auto simp: update_vue_def Let_def docName_def reg_delete_def Set_delete_def split: option.splits)

lemma update_vue_files_filter:
  "\<exists>Q. files (documentRegistry (fst (fold (update_vue host) es sv))) = filter Q (files (documentRegistry (fst sv)))"
proof (induction es arbitrary: sv)
  case Nil
  have "files (documentRegistry (fst sv)) = filter (\<lambda>_. True) (files (documentRegistry (fst sv)))" by simp
  then show ?case by (simp del: filter_True) blast
next
  case (Cons e es)
  from Cons.IH [of "update_vue host e sv"] obtain Q where
    q: "files (documentRegistry (fst (fold (update_vue host) es (update_vue host e sv))))
        = filter Q (files (documentRegistry (fst (update_vue host e sv))))" by blast
  show ?case
  proof (cases "host_getScriptSnapshot host (docName (fst sv) e) = None")
    case True
    then have "files (documentRegistry (fst (fold (update_vue host) (e # es) sv)))
        = filter (\<lambda>p. Q p \<and> fst p \<noteq> normalizePath (docName (fst sv) e)) (files (documentRegistry (fst sv)))"
      by (simp add: q update_vue_step AList.delete_eq case_prod_beta conj_commute eq_commute)
    then show ?thesis by blast
  next
    case False
    then have "files (documentRegistry (fst (fold (update_vue host) (e # es) sv)))
        = filter Q (files (documentRegistry (fst sv)))"
      by (auto simp add: q update_vue_step)
    then show ?thesis by blast
  qed
qed

lemma update_vue_deleted:
  assumes "e \<in> set es" and "host_getScriptSnapshot host (docName (fst sv) e) = None"
  shows "map_of (files (documentRegistry (fst (fold (update_vue host) es sv))))
           (normalizePath (docName (fst sv) e)) = None"
  using assms
proof (induction es arbitrary: sv)
  case Nil
  then show ?case by simp
next
  case (Cons a es)
  have h: "heap (fst (update_vue host a sv)) = heap (fst sv)" by (simp add: update_vue_frame)
  have dn: "docName (fst (update_vue host a sv)) e = docName (fst sv) e"
    by (rule docName_heap [OF h])
  show ?case
  proof (cases "e \<in> set es")
    case True
    from Cons.IH [OF True, of "update_vue host a sv"] Cons.prems(2) dn
    show ?thesis by simp
  next
    case False
    with Cons.prems have ea: "a = e" by simp
    obtain Q where q: "files (documentRegistry (fst (fold (update_vue host) es (update_vue host a sv))))
        = filter Q (files (documentRegistry (fst (update_vue host a sv))))"
      using update_vue_files_filter by blast
    have "map_of (files (documentRegistry (fst (update_vue host a sv)))) (normalizePath (docName (fst sv) e)) = None"
      using Cons.prems(2) ea by (simp add: update_vue_step delete_conv')
    then have "normalizePath (docName (fst sv) e) \<notin> fst ` set (files (documentRegistry (fst (update_vue host a sv))))"
      by (simp add: map_of_eq_None_iff)
    then have "normalizePath (docName (fst sv) e) \<notin> fst ` set (filter Q (files (documentRegistry (fst (update_vue host a sv)))))"
      by auto
    then show ?thesis by (simp add: q map_of_eq_None_iff)
  qed
qed

lemma update_vue_tsFileUpdated:
  "tsFileUpdated (snd (fold (update_vue host) es sv)) =
     (tsFileUpdated (snd sv) \<or> (\<exists>e \<in> set es. host_getScriptSnapshot host (docName (fst sv) e) = None))"
proof (induction es arbitrary: sv)
  case Nil
  show ?case by simp
next
  case (Cons a es)
  have h: "heap (fst (update_vue host a sv)) = heap (fst sv)" by (simp add: update_vue_frame)
  show ?case
    by (simp add: Cons.IH update_vue_step docName_heap [OF h] disj_ac)
qed

lemma update_vue_checkRemains:
  "set (checkRemains (snd (fold (update_vue host) es sv))) =
     set (checkRemains (snd sv)) - (\<lambda>e. docName (fst sv) e) ` set es"
proof (induction es arbitrary: sv)
  case Nil
  show ?case by simp
next
  case (Cons a es)
  have h: "heap (fst (update_vue host a sv)) = heap (fst sv)" by (simp add: update_vue_frame)
  show ?case
    by (auto simp add: Cons.IH update_vue_step docName_heap [OF h])
qed


lemma update_vue_queue_step:
  "sourceFilesShouldUpdate (snd (update_vue host e sv)) =
     sourceFilesShouldUpdate (snd sv) @
       (if queues host (fst sv) e
        then [(fst e, snd e, the (host_getScriptSnapshot host (docName (fst sv) e)))] else [])"
  "sourceVueFileVersions (fst (update_vue host e sv)) =
     (if queues host (fst sv) e
      then (sourceVueFileVersions (fst sv))(docName (fst sv) e \<mapsto> host_getScriptVersion host (docName (fst sv) e))
      else sourceVueFileVersions (fst sv))"
  by (auto simp: update_vue_def Let_def docName_def queues_def split: option.splits)

lemma update_vue_queue_prefix:
  "\<exists>q. sourceFilesShouldUpdate (snd (fold (update_vue host) es sv)) = sourceFilesShouldUpdate (snd sv) @ q"
proof (induction es arbitrary: sv)
  case Nil
  show ?case by simp
next
  case (Cons a es)
  from Cons.IH [of "update_vue host a sv"] obtain q where
    "sourceFilesShouldUpdate (snd (fold (update_vue host) es (update_vue host a sv)))
       = sourceFilesShouldUpdate (snd (update_vue host a sv)) @ q" by blast
  then show ?case by (simp add: update_vue_queue_step)
qed

lemma update_vue_queue_nonempty:
  assumes "\<exists>e \<in> set es. queues host (fst sv) e"
  shows "sourceFilesShouldUpdate (snd (fold (update_vue host) es sv)) \<noteq> []"
  using assms
proof (induction es arbitrary: sv)
  case Nil
  then show ?case by simp
next
  case (Cons a es)
  obtain q where q: "sourceFilesShouldUpdate (snd (fold (update_vue host) es (update_vue host a sv)))
       = sourceFilesShouldUpdate (snd (update_vue host a sv)) @ q"
    using update_vue_queue_prefix by blast
  show ?case
  proof (cases "queues host (fst sv) a")
    case True
    then show ?thesis by (simp add: q update_vue_queue_step)
  next
    case False
    have h: "heap (fst (update_vue host a sv)) = heap (fst sv)" by (simp add: update_vue_frame)
    from False have v: "sourceVueFileVersions (fst (update_vue host a sv)) = sourceVueFileVersions (fst sv)"
      by (simp add: update_vue_queue_step)
    from False Cons.prems obtain e where "e \<in> set es" "queues host (fst sv) e" by auto
    then have "\<exists>e \<in> set es. queues host (fst (update_vue host a sv)) e"
      by (auto simp: queues_def v docName_heap [OF h])
    from Cons.IH [OF this] show ?thesis by simp
  qed
qed

lemma update_vue_queue_member:
  assumes "\<forall>k. sourceVueFileVersions (fst sv) k = V k
              \<or> sourceVueFileVersions (fst sv) k = Some (host_getScriptVersion host k)"
    and "x \<in> set (sourceFilesShouldUpdate (snd (fold (update_vue host) es sv)))"
  shows "x \<in> set (sourceFilesShouldUpdate (snd sv))
         \<or> ((fst x, fst (snd x)) \<in> set es
            \<and> host_getScriptSnapshot host (docName (fst sv) (fst x, fst (snd x))) = Some (snd (snd x))
            \<and> V (docName (fst sv) (fst x, fst (snd x)))
                 \<noteq> Some (host_getScriptVersion host (docName (fst sv) (fst x, fst (snd x)))))"
  using assms
proof (induction es arbitrary: sv)
  case Nil
  then show ?case by simp
next
  case (Cons a es)
  have h: "heap (fst (update_vue host a sv)) = heap (fst sv)" by (simp add: update_vue_frame)
  have agree: "\<forall>k. sourceVueFileVersions (fst (update_vue host a sv)) k = V k
              \<or> sourceVueFileVersions (fst (update_vue host a sv)) k = Some (host_getScriptVersion host k)"
    using Cons.prems(1) by (simp add: update_vue_queue_step)
  from Cons.prems(2) have "x \<in> set (sourceFilesShouldUpdate (snd (fold (update_vue host) es (update_vue host a sv))))"
    by simp
  from Cons.IH [OF agree this]
  show ?case
  proof
    assume "x \<in> set (sourceFilesShouldUpdate (snd (update_vue host a sv)))"
    then have "x \<in> set (sourceFilesShouldUpdate (snd sv))
        \<or> (queues host (fst sv) a \<and> x = (fst a, snd a, the (host_getScriptSnapshot host (docName (fst sv) a))))"
      by (auto simp: update_vue_queue_step split: if_splits)
    then show ?thesis
    proof
      assume "x \<in> set (sourceFilesShouldUpdate (snd sv))"
      then show ?thesis by simp
    next
      assume q: "queues host (fst sv) a \<and> x = (fst a, snd a, the (host_getScriptSnapshot host (docName (fst sv) a)))"
      then have xa: "(fst x, fst (snd x)) = a" by simp
      from q Cons.prems(1) [rule_format, of "docName (fst sv) a"]
      have "V (docName (fst sv) a) \<noteq> Some (host_getScriptVersion host (docName (fst sv) a))"
        by (auto simp: queues_def)
      with q xa show ?thesis by (auto simp: queues_def)
    qed
  next
    assume "(fst x, fst (snd x)) \<in> set es
            \<and> host_getScriptSnapshot host (docName (fst (update_vue host a sv)) (fst x, fst (snd x))) = Some (snd (snd x))
            \<and> V (docName (fst (update_vue host a sv)) (fst x, fst (snd x)))
                 \<noteq> Some (host_getScriptVersion host (docName (fst (update_vue host a sv)) (fst x, fst (snd x))))"
    then show ?thesis by (simp add: docName_heap [OF h])
  qed
qed

lemma update_vue_queue_distinct:
  assumes "distinct (map fst (sourceFilesShouldUpdate (snd sv)) @ map fst es)"
  shows "distinct (map fst (sourceFilesShouldUpdate (snd (fold (update_vue host) es sv))))"
  using assms
proof (induction es arbitrary: sv)
  case Nil
  then show ?case by simp
next
  case (Cons a es)
  from Cons.prems
  have "distinct (map fst (sourceFilesShouldUpdate (snd (update_vue host a sv))) @ map fst es)"
    by (auto simp: update_vue_queue_step)
  from Cons.IH [OF this] show ?case by simp
qed


section \<open>The add step\<close>

lemma update_add_Cons:
  "update_add host mods (f # fs) sv =
     (case host_getScriptSnapshot host f of
        None \<Rightarrow> update_add host mods fs sv
      | Some s \<Rightarrow>
          (case firstMatch mods f s of
             ModuleThrew \<Rightarrow> (Throws, sv)
           | NoMatch \<Rightarrow> update_add host mods fs sv
           | Match sf lm \<Rightarrow>
               update_add host mods fs
                 (added host f sf lm (fst sv),
                  (snd sv)\<lparr>checkRemains := Set_delete f (checkRemains (snd sv))\<rparr>)))"
  by (simp add: Let_def reactive_def added_def split: option.splits Trial.splits)

declare update_add.simps(2) [simp del]

lemma added_frame:
  "nextRef (added host f sf lm st) = Suc (nextRef st)"
  "r \<noteq> nextRef st \<Longrightarrow> heap (added host f sf lm st) r = heap st r"
  "heap (added host f sf lm st) (nextRef st) = sf"
  "files (documentRegistry (added host f sf lm st)) =
     AList.update (normalizePath f) (nextRef st, lm) (files (documentRegistry st))"
  by (simp_all add: added_def reg_set_def)

lemma update_add_heap:
  "nextRef (fst sv) \<le> nextRef (fst (snd (update_add host mods fs sv)))
   \<and> (\<forall>r < nextRef (fst sv). heap (fst (snd (update_add host mods fs sv))) r = heap (fst sv) r)"
proof (induction fs arbitrary: sv)
  case Nil
  show ?case by simp
next
  case (Cons f fs)
  show ?case
  proof (cases "host_getScriptSnapshot host f")
    case None
    with Cons.IH [of sv] show ?thesis by (simp add: update_add_Cons)
  next
    case (Some s)
    show ?thesis
    proof (cases "firstMatch mods f s")
      case (Match sf lm)
      let ?sv' = "(added host f sf lm (fst sv), (snd sv)\<lparr>checkRemains := Set_delete f (checkRemains (snd sv))\<rparr>)"
      from Cons.IH [of ?sv'] Some Match show ?thesis
        by (auto simp: update_add_Cons added_frame)
    next
      case NoMatch
      with Some Cons.IH [of sv] show ?thesis by (simp add: update_add_Cons)
    next
      case ModuleThrew
      with Some show ?thesis by (simp add: update_add_Cons)
    qed
  qed
qed

lemma distinct_refs_update:
  assumes "distinct (map (\<lambda>p. fst (snd p)) al)" and "n \<notin> (\<lambda>p. fst (snd p)) ` set al"
  shows "distinct (map (\<lambda>p. fst (snd p)) (AList.update k (n, lm) al))
         \<and> (\<lambda>p. fst (snd p)) ` set (AList.update k (n, lm) al) \<subseteq> insert n ((\<lambda>p. fst (snd p)) ` set al)"
  using assms by (induction al) (auto simp: image_iff)

lemma refs_ok_alt:
  "refs_ok st =
     ((\<forall>p \<in> set (files (documentRegistry st)). fst (snd p) < nextRef st)
      \<and> distinct (map (\<lambda>p. fst (snd p)) (files (documentRegistry st)))
      \<and> distinct (map fst (files (documentRegistry st))))"
  by (simp add: refs_ok_def reg_all_def o_def)

lemma refs_ok_added:
  assumes "refs_ok st"
  shows "refs_ok (added host f sf lm st)"
proof -
  let ?al = "files (documentRegistry st)"
  from assms have lt: "\<forall>p \<in> set ?al. fst (snd p) < nextRef st"
    and d: "distinct (map (\<lambda>p. fst (snd p)) ?al)" and dk: "distinct (map fst ?al)"
    by (simp_all add: refs_ok_alt)
  from lt have fresh: "nextRef st \<notin> (\<lambda>p. fst (snd p)) ` set ?al" by auto
  from distinct_refs_update [OF d fresh, of "normalizePath f" lm]
  have d': "distinct (map (\<lambda>p. fst (snd p)) (AList.update (normalizePath f) (nextRef st, lm) ?al))"
    and sub: "(\<lambda>p. fst (snd p)) ` set (AList.update (normalizePath f) (nextRef st, lm) ?al)
                \<subseteq> insert (nextRef st) ((\<lambda>p. fst (snd p)) ` set ?al)"
    by simp_all
  have lt': "\<forall>p \<in> set (AList.update (normalizePath f) (nextRef st, lm) ?al). fst (snd p) < Suc (nextRef st)"
  proof
    fix p assume "p \<in> set (AList.update (normalizePath f) (nextRef st, lm) ?al)"
    with sub have "fst (snd p) = nextRef st \<or> fst (snd p) \<in> (\<lambda>p. fst (snd p)) ` set ?al"
      by blast
    with lt show "fst (snd p) < Suc (nextRef st)" by (auto simp: less_Suc_eq)
  qed
  from dk have dk': "distinct (map fst (AList.update (normalizePath f) (nextRef st, lm) ?al))"
    by (rule distinct_update)
  from lt' d' dk' show ?thesis by (simp add: refs_ok_alt added_frame)
qed

lemma refs_ok_update_add:
  "refs_ok (fst sv) \<Longrightarrow> refs_ok (fst (snd (update_add host mods fs sv)))"
proof (induction fs arbitrary: sv)
  case Nil
  then show ?case by simp
next
  case (Cons f fs)
  show ?case
  proof (cases "host_getScriptSnapshot host f")
    case None
    with Cons show ?thesis by (simp add: update_add_Cons)
  next
    case (Some s)
    show ?thesis
    proof (cases "firstMatch mods f s")
      case (Match sf lm)
      let ?sv' = "(added host f sf lm (fst sv), (snd sv)\<lparr>checkRemains := Set_delete f (checkRemains (snd sv))\<rparr>)"
      from Cons.prems have "refs_ok (fst ?sv')" by (simp add: refs_ok_added)
      from Cons.IH [OF this] Some Match show ?thesis by (simp add: update_add_Cons)
    next
      case NoMatch
      with Some Cons show ?thesis by (simp add: update_add_Cons)
    next
      case ModuleThrew
      with Some Cons.prems show ?thesis by (simp add: update_add_Cons)
    qed
  qed
qed

lemma update_add_files:
  assumes "map_of (files (documentRegistry (fst (snd (update_add host mods fs sv))))) k = Some e"
  shows "map_of (files (documentRegistry (fst sv))) k = Some e
         \<or> (nextRef (fst sv) \<le> fst e
            \<and> (\<exists>f \<in> set fs. k = normalizePath f
                  \<and> (\<exists>s sf. host_getScriptSnapshot host f = Some s \<and> firstMatch mods f s = Match sf (snd e))))"
  using assms
proof (induction fs arbitrary: sv)
  case Nil
  then show ?case by simp
next
  case (Cons f fs)
  show ?case
  proof (cases "host_getScriptSnapshot host f")
    case None
    with Cons.prems have "map_of (files (documentRegistry (fst (snd (update_add host mods fs sv))))) k = Some e"
      by (simp add: update_add_Cons)
    from Cons.IH [OF this] show ?thesis by auto
  next
    case (Some s)
    show ?thesis
    proof (cases "firstMatch mods f s")
      case (Match sf lm)
      let ?sv' = "(added host f sf lm (fst sv), (snd sv)\<lparr>checkRemains := Set_delete f (checkRemains (snd sv))\<rparr>)"
      from Cons.prems Some Match
      have "map_of (files (documentRegistry (fst (snd (update_add host mods fs ?sv'))))) k = Some e"
        by (simp add: update_add_Cons)
      from Cons.IH [OF this]
      show ?thesis
      proof
        assume "map_of (files (documentRegistry (fst ?sv'))) k = Some e"
        then have "(k = normalizePath f \<and> e = (nextRef (fst sv), lm))
            \<or> map_of (files (documentRegistry (fst sv))) k = Some e"
          by (auto simp: added_frame update_conv' split: if_splits)
        with Some Match show ?thesis by auto
      next
        assume "nextRef (fst ?sv') \<le> fst e
            \<and> (\<exists>f \<in> set fs. k = normalizePath f
                  \<and> (\<exists>s sf. host_getScriptSnapshot host f = Some s \<and> firstMatch mods f s = Match sf (snd e)))"
        then show ?thesis by (auto simp: added_frame)
      qed
    next
      case NoMatch
      with Some Cons.prems have "map_of (files (documentRegistry (fst (snd (update_add host mods fs sv))))) k = Some e"
        by (simp add: update_add_Cons)
      from Cons.IH [OF this] show ?thesis by auto
    next
      case ModuleThrew
      with Some Cons.prems show ?thesis by (simp add: update_add_Cons)
    qed
  qed
qed

lemma update_add_returns:
  assumes "\<forall>f \<in> set fs. \<forall>s. host_getScriptSnapshot host f = Some s \<longrightarrow> firstMatch mods f s \<noteq> ModuleThrew"
  shows "fst (update_add host mods fs sv) = Returns ()"
  using assms
proof (induction fs arbitrary: sv)
  case Nil
  show ?case by simp
next
  case (Cons f fs)
  then show ?case
    by (cases "host_getScriptSnapshot host f")
       (auto simp: update_add_Cons split: Trial.splits)
qed

lemma update_add_checkRemains:
  "set (checkRemains (snd (snd (update_add host mods fs sv)))) \<subseteq> set (checkRemains (snd sv))"
proof (induction fs arbitrary: sv)
  case Nil
  show ?case by simp
next
  case (Cons f fs)
  show ?case
  proof (cases "host_getScriptSnapshot host f")
    case None
    with Cons.IH [of sv] show ?thesis by (simp add: update_add_Cons)
  next
    case (Some s)
    show ?thesis
    proof (cases "firstMatch mods f s")
      case (Match sf lm)
      let ?sv' = "(added host f sf lm (fst sv), (snd sv)\<lparr>checkRemains := Set_delete f (checkRemains (snd sv))\<rparr>)"
      from Cons.IH [of ?sv'] Some Match show ?thesis
        by (auto simp: update_add_Cons Set_delete_def)
    next
      case NoMatch
      with Some Cons.IH [of sv] show ?thesis by (simp add: update_add_Cons)
    next
      case ModuleThrew
      with Some show ?thesis by (simp add: update_add_Cons)
    qed
  qed
qed


section \<open>The loops over the other files, and the records of scripts\<close>

lemma fold_fixed:
  assumes "\<forall>x \<in> set xs. f x s = s"
  shows "fold f xs s = s"
  using assms by (induction xs) simp_all

lemma update_ts_tsFileUpdated:
  "tsFileUpdated (snd sv) \<Longrightarrow> tsFileUpdated (snd (update_ts host p sv))"
  by (simp add: update_ts_def Let_def)

lemma update_now_tsFileUpdated:
  "tsFileUpdated (snd sv) \<Longrightarrow> tsFileUpdated (snd (update_now host f sv))"
  by (simp add: update_now_def Let_def)

lemma fold_keeps:
  assumes "\<And>x s. P s \<Longrightarrow> P (f x s)" and "P s"
  shows "P (fold f xs s)"
  using assms(2) by (induction xs arbitrary: s) (simp_all add: assms(1))

lemma update_versions_tsFileUpdated:
  "tsFileUpdated (snd sv) \<Longrightarrow> tsFileUpdated (snd (update_versions host sv))"
  unfolding update_versions_def Let_def
  by (intro fold_keeps [where P = "\<lambda>sv. tsFileUpdated (snd sv)"])
     (simp_all add: update_ts_tsFileUpdated update_now_tsFileUpdated)

lemma update_versions_fixed:
  assumes "\<forall>p \<in> set (sourceTsFileVersions (fst sv)). host_getScriptVersion host (fst p) = snd p"
    and "\<forall>f \<in> set (checkRemains (snd sv)). map_of (sourceTsFileVersions (fst sv)) f \<noteq> None"
  shows "update_versions host sv = sv"
proof -
  have "fold (update_ts host) (sourceTsFileVersions (fst sv)) sv = sv"
    using assms(1) by (intro fold_fixed) (simp add: update_ts_def Let_def)
  moreover have "fold (update_now host) (checkRemains (snd sv)) sv = sv"
    using assms(2) by (intro fold_fixed) (auto simp add: update_now_def Let_def)
  ultimately show ?thesis by (simp add: update_versions_def Let_def)
qed

lemma truthy_iff: "truthy k \<longleftrightarrow> k = TypeScriptHostFile"
  by (cases k) (simp_all add: truthy_def)

lemma map_of_fold_scripts:
  "map_of (fold (\<lambda>embedded scripts.
             if kind embedded = TypeScriptHostFile
             then AList.update (fileName embedded) (text_of embedded) scripts
             else scripts) es acc)
   = map_of (rev (map (\<lambda>e. (fileName e, text_of e)) (filter (\<lambda>e. kind e = TypeScriptHostFile) es)) @ acc)"
  by (induction es arbitrary: acc) (simp_all add: update_conv')

lemma distinct_fold_scripts:
  "distinct (map fst acc) \<Longrightarrow>
   distinct (map fst (fold (\<lambda>embedded scripts.
             if kind embedded = TypeScriptHostFile
             then AList.update (fileName embedded) (text_of embedded) scripts
             else scripts) es acc))"
  by (induction es arbitrary: acc) (simp_all add: distinct_update)

lemma map_of_collectScripts: "map_of (collectScripts sf) = hostVisibleTexts sf"
  by (simp add: collectScripts_def truthy_iff hostVisibleTexts_def hostVisibleFiles_def map_of_fold_scripts)

lemma distinct_collectScripts: "distinct (map fst (collectScripts sf))"
  by (simp add: collectScripts_def truthy_iff distinct_fold_scripts)

lemma length_distinct_keys:
  assumes "distinct (map fst al)"
  shows "length al = card (dom (map_of al))"
proof -
  have "card (dom (map_of al)) = card (set (map fst al))"
    by (simp add: dom_map_of_conv_image_fst)
  also have "\<dots> = length (map fst al)" using assms by (rule distinct_card)
  finally show ?thesis by simp
qed

lemma scriptsChanged_same:
  assumes "map_of old = map_of new" and "distinct (map fst old)" and "distinct (map fst new)"
  shows "\<not> scriptsChanged b old new"
proof -
  from assms have "length old = length new" by (simp add: length_distinct_keys)
  with assms(1) show ?thesis by (simp add: scriptsChanged_def list_ex_iff)
qed


section \<open>The loop over the queued documents\<close>

lemma fold_forget:
  "fold (\<lambda>embedded versions. versions(fileName embedded := None)) es v k =
     (if k \<in> fileName ` set es then None else v k)"
  by (induction es arbitrary: v) auto

lemma update_reparse_step:
  "heap (fst (update_reparse e sv)) =
     (heap (fst sv))(fst e := updateSourceFile (fst (snd e)) (heap (fst sv) (fst e)) (snd (snd e)))"
  "virtualFileVersions (fst (update_reparse e sv)) k =
     (if k \<in> fileName ` set (forEachEmbeddeds (heap (fst sv) (fst e))) then None
      else virtualFileVersions (fst sv) k)"
  by (simp_all add: update_reparse_def Let_def fold_forget)

lemma update_reparse_tsFileUpdated:
  "tsFileUpdated (snd sv) \<Longrightarrow> tsFileUpdated (snd (update_reparse e sv))"
  by (simp add: update_reparse_def Let_def)

lemma update_reparse_suppressed:
  assumes "\<not> tsFileUpdated (snd sv)"
    and "hostVisibleTexts (updateSourceFile (fst (snd e)) (heap (fst sv) (fst e)) (snd (snd e)))
           = hostVisibleTexts (heap (fst sv) (fst e))"
  shows "\<not> tsFileUpdated (snd (update_reparse e sv))"
proof -
  let ?old = "collectScripts (heap (fst sv) (fst e))"
  let ?new = "collectScripts (updateSourceFile (fst (snd e)) (heap (fst sv) (fst e)) (snd (snd e)))"
  from assms(2) have "map_of ?old = map_of ?new" by (simp add: map_of_collectScripts)
  then have "\<not> scriptsChanged False ?old ?new"
    by (rule scriptsChanged_same) (rule distinct_collectScripts)+
  with assms(1) show ?thesis by (simp add: update_reparse_def Let_def)
qed

lemma update_sources_tsFileUpdated:
  "tsFileUpdated (snd sv) \<Longrightarrow> tsFileUpdated (snd (update_sources sv))"
  unfolding update_sources_def
  by (intro fold_keeps [where P = "\<lambda>sv. tsFileUpdated (snd sv)"])
     (simp_all add: update_reparse_tsFileUpdated)

lemma fold_reparse_heap_other:
  "r \<notin> fst ` set q \<Longrightarrow> heap (fst (fold update_reparse q sv)) r = heap (fst sv) r"
  by (induction q arbitrary: sv) (auto simp: update_reparse_step)

lemma fold_reparse_suppressed:
  assumes "\<not> tsFileUpdated (snd sv)" and "distinct (map fst q)"
    and "\<forall>e \<in> set q. hostVisibleTexts (updateSourceFile (fst (snd e)) (heap (fst sv) (fst e)) (snd (snd e)))
           = hostVisibleTexts (heap (fst sv) (fst e))"
  shows "\<not> tsFileUpdated (snd (fold update_reparse q sv))"
  using assms
proof (induction q arbitrary: sv)
  case Nil
  then show ?case by simp
next
  case (Cons e q)
  have 1: "\<not> tsFileUpdated (snd (update_reparse e sv))"
    using Cons.prems(1,3) by (intro update_reparse_suppressed) simp_all
  have 2: "distinct (map fst q)" using Cons.prems(2) by simp
  have 3: "\<forall>x \<in> set q. hostVisibleTexts (updateSourceFile (fst (snd x)) (heap (fst (update_reparse e sv)) (fst x)) (snd (snd x)))
           = hostVisibleTexts (heap (fst (update_reparse e sv)) (fst x))"
  proof
    fix x assume x: "x \<in> set q"
    then have "fst x \<in> set (map fst q)" by simp
    moreover have "fst e \<notin> set (map fst q)" using Cons.prems(2) by simp
    ultimately have "fst x \<noteq> fst e" by metis
    then have "heap (fst (update_reparse e sv)) (fst x) = heap (fst sv) (fst x)"
      by (simp add: update_reparse_step)
    with x Cons.prems(3) show "hostVisibleTexts (updateSourceFile (fst (snd x)) (heap (fst (update_reparse e sv)) (fst x)) (snd (snd x)))
           = hostVisibleTexts (heap (fst (update_reparse e sv)) (fst x))" by simp
  qed
  from Cons.IH [OF 1 2 3] show ?case by simp
qed

lemma fold_reparse_forgets_more:
  "virtualFileVersions (fst sv) k = None \<Longrightarrow> virtualFileVersions (fst (fold update_reparse q sv)) k = None"
  by (induction q arbitrary: sv) (simp_all add: update_reparse_step)

lemma fold_reparse_forgets:
  assumes "e \<in> set q" and "distinct (map fst q)"
    and "x \<in> set (forEachEmbeddeds (heap (fst sv) (fst e)))"
  shows "virtualFileVersions (fst (fold update_reparse q sv)) (fileName x) = None"
  using assms
proof (induction q arbitrary: sv)
  case Nil
  then show ?case by simp
next
  case (Cons a q)
  show ?case
  proof (cases "a = e")
    case True
    with Cons.prems(3) have "virtualFileVersions (fst (update_reparse a sv)) (fileName x) = None"
      by (simp add: update_reparse_step)
    then show ?thesis by (simp add: fold_reparse_forgets_more)
  next
    case False
    with Cons.prems have e: "e \<in> set q" by simp
    then have "fst e \<in> set (map fst q)" by simp
    moreover have "fst a \<notin> set (map fst q)" using Cons.prems(2) by simp
    ultimately have "fst e \<noteq> fst a" by metis
    then have "heap (fst (update_reparse a sv)) (fst e) = heap (fst sv) (fst e)"
      by (simp add: update_reparse_step)
    with Cons.prems(3) have "x \<in> set (forEachEmbeddeds (heap (fst (update_reparse a sv)) (fst e)))" by simp
    from Cons.IH [OF e _ this] Cons.prems(2) show ?thesis by simp
  qed
qed


section \<open>The references stay in order\<close>

lemma refs_ok_filter:
  assumes "refs_ok st" and f: "files (documentRegistry st') = filter Q (files (documentRegistry st))"
    and n: "nextRef st' = nextRef st"
  shows "refs_ok st'"
proof -
  let ?al = "files (documentRegistry st)"
  from assms(1) have lt: "\<forall>p \<in> set ?al. fst (snd p) < nextRef st"
    and d: "distinct (map (\<lambda>p. fst (snd p)) ?al)" and dk: "distinct (map fst ?al)"
    unfolding refs_ok_alt by blast+
  from lt have "\<forall>p \<in> set (filter Q ?al). fst (snd p) < nextRef st" by simp
  moreover from d have "distinct (map (\<lambda>p. fst (snd p)) (filter Q ?al))" by (rule distinct_map_filter)
  moreover from dk have "distinct (map fst (filter Q ?al))" by (rule distinct_map_filter)
  ultimately show ?thesis unfolding refs_ok_alt f n by blast
qed

lemma refs_ok_same:
  assumes "refs_ok st" and f: "files (documentRegistry st') = files (documentRegistry st)"
    and n: "nextRef st' = nextRef st"
  shows "refs_ok st'"
  using assms(1) unfolding refs_ok_alt f n .

lemma refs_ok_update_documents:
  assumes "refs_ok st"
  shows "refs_ok (fst (update_documents host st))"
proof -
  let ?vars0 = "\<lparr>tsFileUpdated = False, checkRemains = new_Set (host_getScriptFileNames host),
                   sourceFilesShouldUpdate = []\<rparr>"
  let ?sv1 = "fold (update_vue host) (reg_all (documentRegistry st)) (st, ?vars0)"
  have "\<exists>Q. files (documentRegistry (fst ?sv1)) = filter Q (files (documentRegistry (fst (st, ?vars0))))"
    by (rule update_vue_files_filter)
  then obtain Q where q: "files (documentRegistry (fst ?sv1)) = filter Q (files (documentRegistry st))"
    by (elim exE) simp
  have n: "nextRef (fst ?sv1) = nextRef st" by (simp add: update_vue_heap_fold)
  have "refs_ok (fst ?sv1)" by (rule refs_ok_filter [OF assms q n])
  then show ?thesis by (simp add: update_documents_def Let_def)
qed

lemma refs_ok_update:
  assumes "refs_ok st"
  shows "refs_ok (snd (update host mods st))"
proof (cases "shouldUpdate host st")
  case False
  with assms show ?thesis by (simp add: update_skip)
next
  case True
  let ?st0 = "st\<lparr>lastProjectVersion := host_getProjectVersion host\<rparr>"
  let ?sv2 = "update_documents host ?st0"
  obtain c sv3 where r: "update_add host mods (checkRemains (snd ?sv2)) ?sv2 = (c, sv3)"
    by (cases "update_add host mods (checkRemains (snd ?sv2)) ?sv2") auto
  from assms have "refs_ok ?st0" by (simp add: refs_ok_alt)
  then have "refs_ok (fst ?sv2)" by (rule refs_ok_update_documents)
  then have "refs_ok (fst (snd (update_add host mods (checkRemains (snd ?sv2)) ?sv2)))"
    by (rule refs_ok_update_add)
  with r have 3: "refs_ok (fst sv3)" by simp
  have "refs_ok (fst (update_sources (update_versions host sv3)))"
    by (rule refs_ok_same [OF 3]) (simp_all add: update_sources_frame update_versions_frame)
  then have 6: "refs_ok ((fst (update_sources (update_versions host sv3)))
      \<lparr>tsProjectVersion := Suc (tsProjectVersion (fst (update_sources (update_versions host sv3))))\<rparr>)"
    by (simp add: refs_ok_alt)
  show ?thesis
  proof (cases c)
    case Throws
    with 3 show ?thesis by (simp add: update_run [OF True r])
  next
    case (Returns u)
    show ?thesis
    proof (cases "tsFileUpdated (snd (update_sources (update_versions host sv3)))")
      case True
      with Returns 6 show ?thesis by (simp add: update_run [OF \<open>shouldUpdate host st\<close> r])
    next
      case False
      with Returns \<open>refs_ok (fst (update_sources (update_versions host sv3)))\<close>
      show ?thesis by (simp add: update_run [OF \<open>shouldUpdate host st\<close> r])
    qed
  qed
qed

lemma refs_ok_createVirtualFiles:
  assumes "refs_ok st"
  shows "refs_ok (snd (createVirtualFiles host mods v st))"
proof -
  have a: "refs_ok (st\<lparr>heap := (heap st)(nextRef st := sf), nextRef := Suc (nextRef st),
        documentRegistry := reg_set v (nextRef st) lm (documentRegistry st)\<rparr>)" for sf lm
  proof -
    have "refs_ok (added host v sf lm st)" using assms by (rule refs_ok_added)
    then show ?thesis by (simp add: refs_ok_alt added_def)
  qed
  show ?thesis
  proof (cases "reg_get (documentRegistry st) v")
    case (Some e)
    with assms show ?thesis by (simp add: createVirtualFiles_def)
  next
    case None
    note unreg = None
    show ?thesis
    proof (cases "host_getScriptSnapshot host v")
      case None
      with unreg assms show ?thesis by (simp add: createVirtualFiles_def)
    next
      case (Some snap)
      show ?thesis
      proof (cases "firstMatch mods v snap")
        case (Match sf lm)
        with unreg Some a [where sf = sf and lm = lm] show ?thesis
          by (simp add: createVirtualFiles_def Let_def reactive_def)
      next
        case NoMatch
        with unreg Some assms show ?thesis by (simp add: createVirtualFiles_def)
      next
        case ModuleThrew
        with unreg Some assms show ?thesis by (simp add: createVirtualFiles_def)
      qed
    qed
  qed
qed

lemma refs_ok_callMethod:
  assumes "refs_ok st"
  shows "refs_ok (snd (callMethod host mods q st))"
proof (cases q)
  case GetProjectVersion
  with assms show ?thesis by (simp add: callMethod_def)
next
  case GetScriptFileNames
  with assms show ?thesis by (simp add: callMethod_def)
next
  case (GetScriptVersion f)
  have "refs_ok (snd (getScriptVersion host f st))"
    by (rule refs_ok_same [OF assms]) (simp_all add: getScriptVersion_frame)
  with GetScriptVersion show ?thesis by (simp add: callMethod_def Let_def)
next
  case (GetScriptSnapshot f)
  have "refs_ok (snd (getScriptSnapshot host f st))"
    by (rule refs_ok_same [OF assms]) (simp_all add: getScriptSnapshot_frame)
  with GetScriptSnapshot show ?thesis by (simp add: callMethod_def Let_def)
next
  case (FileExists f)
  have "snd (fileExists host mods f st) = snd (createVirtualFiles host mods (substringBeforeLastDot f) st)"
    by (cases "fst (createVirtualFiles host mods (substringBeforeLastDot f) st)")
       (simp_all add: fileExists_def Let_def)
  with refs_ok_createVirtualFiles [OF assms, of host mods "substringBeforeLastDot f"]
  have "refs_ok (snd (fileExists host mods f st))" by simp
  with FileExists assms show ?thesis by (simp add: callMethod_def Let_def)
qed

lemma refs_ok_call:
  assumes "refs_ok st"
  shows "refs_ok (snd (typescriptLanguageServiceHost host mods q st))"
proof -
  from assms have u: "refs_ok (snd (update host mods st))" by (rule refs_ok_update)
  show ?thesis
    by (cases "fst (update host mods st)")
       (simp_all add: typescriptLanguageServiceHost_def Let_def u refs_ok_callMethod)
qed

lemma refs_ok_calls: "refs_ok st \<Longrightarrow> refs_ok (calls mods cs st)"
  unfolding calls_def
  by (rule fold_keeps [where P = refs_ok]) (simp_all add: refs_ok_call)

lemma refs_ok_initialState: "refs_ok initialState"
  by (simp add: refs_ok_def initialState_def createDocumentRegistry_def reg_all_def)


section \<open>The claims\<close>

lemmas eval_defs = update_def update_add.simps shouldUpdate_def update_documents_def update_versions_def
  update_sources_def update_vue_def update_ts_def update_now_def update_reparse_def
  Let_def new_Set_def Set_add_def Set_delete_def reg_all_def reg_set_def reg_delete_def
  reg_has_def reg_get_def reactive_def initialState_def createDocumentRegistry_def
  onSourceFileUpdated_def collectScripts_def scriptsChanged_def truthy_def
  typescriptLanguageServiceHost_def callMethod_def calls_def getProjectVersion_def
  getScriptFileNames_def getScriptVersion_def getScriptSnapshot_def
  fromEmbeddedFileName_def sourceMapsByFileName_def normalizePath_def toLowerCase_def lowerChars_def
  widgetTree_def widgetModule_def hostA_def hostB_def hostN_def
  rootVisibleModule_def stateA_def stateRootVisible_def createEmbeddedLanguageServiceHost_def




text \<open>
  Claim C6 (project-version monotonicity). A reconcile pass leaves the counter
  \<open>tsProjectVersion\<close> unchanged or adds exactly one to it, also when a language
  module throws in the pass; a call of the synthesized host changes the counter only
  through its pass. Hence along every sequence of calls the counter never decreases,
  and once it has left a value it never has that value again.
\<close>

theorem project_version_monotone:
  "(tsProjectVersion (snd (update host mods st)) = tsProjectVersion st
      \<or> tsProjectVersion (snd (update host mods st)) = Suc (tsProjectVersion st))
   \<and> tsProjectVersion (snd (typescriptLanguageServiceHost host mods q st))
        = tsProjectVersion (snd (update host mods st))
   \<and> tsProjectVersion (calls mods cs st) \<le> tsProjectVersion (calls mods (cs @ cs') st)
   \<and> (tsProjectVersion (calls mods cs st) \<noteq> tsProjectVersion st
        \<longrightarrow> tsProjectVersion (calls mods (cs @ cs') st) \<noteq> tsProjectVersion st)"
proof (intro conjI impI)
  show "tsProjectVersion (snd (update host mods st)) = tsProjectVersion st
      \<or> tsProjectVersion (snd (update host mods st)) = Suc (tsProjectVersion st)"
    by (rule update_counter_step)
  show "tsProjectVersion (snd (typescriptLanguageServiceHost host mods q st))
        = tsProjectVersion (snd (update host mods st))"
    by (rule surface_counter)
  show mono: "tsProjectVersion (calls mods cs st) \<le> tsProjectVersion (calls mods (cs @ cs') st)"
    by (simp add: calls_append calls_counter_mono)
  assume "tsProjectVersion (calls mods cs st) \<noteq> tsProjectVersion st"
  with calls_counter_mono [of st mods cs]
  have "tsProjectVersion st < tsProjectVersion (calls mods cs st)" by simp
  with mono show "tsProjectVersion (calls mods (cs @ cs') st) \<noteq> tsProjectVersion st" by simp
qed

text \<open>
  An instance of C6: a host without a project version is asked twice; the counter
  leaves 0 with the first call and is not 0 after the second.
\<close>

theorem project_version_monotone_witness:
  "tsProjectVersion (calls [] [(hostN, GetProjectVersion)] initialState) \<noteq> tsProjectVersion initialState
   \<and> tsProjectVersion (calls [] ([(hostN, GetProjectVersion)] @ [(hostN, GetScriptFileNames)]) initialState)
       \<noteq> tsProjectVersion initialState"
proof -
  have h: "tsProjectVersion (calls [] [(hostN, GetProjectVersion)] initialState) \<noteq> tsProjectVersion initialState"
    by (simp add: eval_defs)
  with project_version_monotone [of hostN "[]" initialState GetProjectVersion "[(hostN, GetProjectVersion)]"
      "[(hostN, GetScriptFileNames)]"]
  show ?thesis by blast
qed


text \<open>
  Claim C2 (idempotence of the synthesized surface), as amended. When the host exposes
  a project version and a call of the synthesized host returns an answer, the same
  call made again with the same host answers returns the same answer and leaves the
  whole state of the adapter as it is, the project-version counter included. (With no
  project version every call runs a reconcile pass; see the counterexample.)
\<close>

theorem query_twice:
  assumes "host_getProjectVersion host \<noteq> None"
    and "fst (typescriptLanguageServiceHost host mods q st) = Returns a"
  shows "typescriptLanguageServiceHost host mods q (snd (typescriptLanguageServiceHost host mods q st))
           = (Returns a, snd (typescriptLanguageServiceHost host mods q st))"
proof -
  let ?r = "typescriptLanguageServiceHost host mods q st"
  from assms(2) have u: "fst (update host mods st) = Returns ()"
    by (cases "fst (update host mods st)") (simp_all add: typescriptLanguageServiceHost_def Let_def)
  then have r: "?r = callMethod host mods q (snd (update host mods st))"
    by (simp add: typescriptLanguageServiceHost_def Let_def)
  have "lastProjectVersion (snd ?r) = host_getProjectVersion host"
    by (rule surface_lastProjectVersion)
  with assms(1) have "\<not> shouldUpdate host (snd ?r)"
    by (simp add: shouldUpdate_def Let_def)
  then have "update host mods (snd ?r) = (Returns (), snd ?r)" by (rule update_skip)
  then have "typescriptLanguageServiceHost host mods q (snd ?r) = callMethod host mods q (snd ?r)"
    by (simp add: typescriptLanguageServiceHost_def Let_def)
  also have "\<dots> = ?r" unfolding r by (rule callMethod_again)
  finally show ?thesis using assms(2) by (simp add: prod_eq_iff)
qed

text \<open>
  C2 as stated fails for a host that exposes no project version: the pass runs at
  every call, finds no document queued for re-parse, and advances the counter. Here
  the host reports no files and no module is registered; the counter differs after
  the first and after the second enumeration.
\<close>

theorem query_twice_counterexample:
  "tsProjectVersion (snd (typescriptLanguageServiceHost hostN [] GetScriptFileNames
       (snd (typescriptLanguageServiceHost hostN [] GetScriptFileNames initialState))))
   \<noteq> tsProjectVersion (snd (typescriptLanguageServiceHost hostN [] GetScriptFileNames initialState))"
  by (simp add: eval_defs)

text \<open>
  An instance of the amended C2: the version of \<^verbatim>\<open>a.widget.ts\<close> is asked twice.
\<close>

theorem query_twice_witness:
  "typescriptLanguageServiceHost hostA [widgetModule] (GetScriptVersion ''a.widget.ts'')
     (snd (typescriptLanguageServiceHost hostA [widgetModule] (GetScriptVersion ''a.widget.ts'') initialState))
   = (Returns (ScriptVersion ''let x=1''),
      snd (typescriptLanguageServiceHost hostA [widgetModule] (GetScriptVersion ''a.widget.ts'') initialState))"
proof -
  have 1: "host_getProjectVersion hostA \<noteq> None" by (simp add: hostA_def)
  have 2: "fst (typescriptLanguageServiceHost hostA [widgetModule] (GetScriptVersion ''a.widget.ts'') initialState)
      = Returns (ScriptVersion ''let x=1'')"
    by (simp add: eval_defs)
  from query_twice [OF 1 2] show ?thesis .
qed









text \<open>
  Claim C3 (first match wins in registration order) on the code. The modules
  \<open>widgetModule\<close> and \<open>rootVisibleModule\<close> are supplied in this order and both return
  a document for \<^verbatim>\<open>a.widget\<close>. A trial in the supplied order chooses
  \<open>widgetModule\<close>, whose document would put \<^verbatim>\<open>a.widget.ts\<close> into the enumeration.
  The adapter built from them enumerates \<^verbatim>\<open>a.widget\<close> instead: the document
  registered is the one of \<open>rootVisibleModule\<close>, the module supplied last.
\<close>

theorem module_order_evaluation:
  "firstMatch [widgetModule, rootVisibleModule] ''a.widget'' ''let x=1 // one''
     = Match (widgetTree ''a.widget'' ''let x=1 // one'') widgetModule
   \<and> fst (typescriptLanguageServiceHost
        (ctx_host (fst (createEmbeddedLanguageServiceHost hostA [widgetModule, rootVisibleModule])))
        (ctx_languageModules (fst (createEmbeddedLanguageServiceHost hostA [widgetModule, rootVisibleModule])))
        GetScriptFileNames
        (ctx_state (fst (createEmbeddedLanguageServiceHost hostA [widgetModule, rootVisibleModule]))))
     = Returns (FileNames [''a.widget'', ''b.txt''])"
  by (simp add: eval_defs)


end
